theory Spec2Isabelle
  imports Complex_Main
begin

text \<open>
  A shallow embedding of the tool bridge of the Stampede (code-mode) framework: scope
  authorization on both paths, the fixed-window rate limiter, the registry's
  \<^verbatim>\<open>executeTool\<close>, dispatch with checks, execution tokens, the type-string generator of
  the schema adapter, and the reconstruction of the tool-call trace from sandbox output.
  The definitions come first, then the fixtures taken from the test suites, then the
  properties.
\<close>

section \<open>Values and execution contexts\<close>

text \<open>
  Values that cross the bridge are JSON values. A JavaScript number is modelled as a
  real; an object is an association list read with \<open>map_of\<close>.
\<close>

datatype json =
    JNull
  | JBool bool
  | JNum real
  | JStr string
  | JArr "json list"
  | JObj "(string \<times> json) list"

text \<open>\<^verbatim>\<open>Array.prototype.join\<close> on an array of strings.\<close>

fun join :: "string \<Rightarrow> string list \<Rightarrow> string" where
  "join sep [] = []"
| "join sep [x] = x"
| "join sep (x # y # ys) = x @ sep @ join sep (y # ys)"

text \<open>\<^verbatim>\<open>ExecutionContext\<close> of \<^verbatim>\<open>core/types.ts\<close>.\<close>

record ExecutionContext =
  userId :: string
  sessionId :: string
  organizationId :: "string option"
  scopes :: "string list"
  metadata :: "(string \<times> json) list option"

section \<open>Authorization\<close>

text \<open>
  \<^verbatim>\<open>BaseToolBridgeProtocol.checkAuthorization\<close> (tool-bridge-protocol.ts):
  an empty or wildcard requirement passes; otherwise some required scope must be held,
  or the context must hold the wildcard.
\<close>

definition checkAuthorization :: "ExecutionContext \<Rightarrow> string list \<Rightarrow> bool" where
  "checkAuthorization ctx requiredScopes =
     (if length requiredScopes = 0 \<or> ''*'' \<in> set requiredScopes then True
      else list_ex (\<lambda>scope. scope \<in> set (scopes ctx) \<or> ''*'' \<in> set (scopes ctx))
             requiredScopes)"

text \<open>The errors the tRPC router throws (\<^verbatim>\<open>TRPCError\<close> code and message).\<close>

datatype trpc_error =
    UNAUTHORIZED string
  | FORBIDDEN string
  | TOO_MANY_REQUESTS string

text \<open>
  \<^verbatim>\<open>requireScopes\<close> of the tRPC router (providers/protocol/trpc/server.ts). The
  middleware either throws \<^verbatim>\<open>FORBIDDEN\<close> or calls \<^verbatim>\<open>next()\<close>; the latter is \<open>Inr ()\<close>.
\<close>

definition requireScopes :: "string list \<Rightarrow> ExecutionContext option \<Rightarrow> trpc_error + unit" where
  "requireScopes requiredScopes executionContext =
     (let userScopes = (case executionContext of None \<Rightarrow> [] | Some c \<Rightarrow> scopes c);
          hasScope = list_ex (\<lambda>scope. scope \<in> set userScopes \<or> ''*'' \<in> set userScopes
                                       \<or> scope = ''*'') requiredScopes
      in if \<not> hasScope
         then Inl (FORBIDDEN (''Missing required scope. Required: '' @ join '' or '' requiredScopes))
         else Inr ())"

text \<open>
  The router builds each procedure with \<^verbatim>\<open>tool.requiredScopes ?? ["*"]\<close>: only an absent
  list is replaced by the wildcard.
\<close>

definition trpc_scopes :: "string list option \<Rightarrow> string list" where
  "trpc_scopes requiredScopes = (case requiredScopes of None \<Rightarrow> [''*''] | Some r \<Rightarrow> r)"

definition trpc_authorize :: "string list option \<Rightarrow> ExecutionContext \<Rightarrow> bool" where
  "trpc_authorize requiredScopes ctx =
     (case requireScopes (trpc_scopes requiredScopes) (Some ctx) of Inl _ \<Rightarrow> False | Inr _ \<Rightarrow> True)"

section \<open>Rate limiting\<close>

text \<open>
  The rate-limit store maps the key \<^verbatim>\<open>rate:<userId>\<close> to a counter and the time (in
  milliseconds) at which its window ends. \<^verbatim>\<open>checkRateLimit\<close> is written twice in the
  sources, word for word the same: as a method of \<^verbatim>\<open>BaseToolBridgeProtocol\<close> over the
  instance's store and as a function of the tRPC server over a module-level store. The
  store is passed in and returned; \<open>now\<close> is the reading of \<^verbatim>\<open>Date.now()\<close>.
\<close>

record rate_entry =
  count :: int
  resetTime :: int

type_synonym rate_store = "string \<rightharpoonup> rate_entry"

record rate_check =
  allowed :: bool
  remaining :: int
  resetIn :: int

definition checkRateLimit ::
  "rate_store \<Rightarrow> int \<Rightarrow> string \<Rightarrow> int \<Rightarrow> rate_check \<times> rate_store" where
  "checkRateLimit store now uid maxPerMinute =
     (let key = ''rate:'' @ uid;
          fresh = (\<lparr>allowed = True, remaining = maxPerMinute - 1, resetIn = 60\<rparr>,
                   store(key \<mapsto> \<lparr>count = 1, resetTime = now + 60000\<rparr>))
      in case store key of
           None \<Rightarrow> fresh
         | Some entry \<Rightarrow>
             if now > resetTime entry then fresh
             else if count entry \<ge> maxPerMinute then
               (\<lparr>allowed = False, remaining = 0,
                 resetIn = \<lceil>real_of_int (resetTime entry - now) / 1000\<rceil>\<rparr>, store)
             else
               (let entry' = entry\<lparr>count := count entry + 1\<rparr>
                in (\<lparr>allowed = True, remaining = maxPerMinute - count entry',
                     resetIn = \<lceil>real_of_int (resetTime entry' - now) / 1000\<rceil>\<rparr>,
                    store(key \<mapsto> entry'))))"

text \<open>
  A run of calls by one user with one limit, at the given clock readings: the results in
  order and the store left behind.
\<close>

fun checkRateLimit_seq ::
  "rate_store \<Rightarrow> string \<Rightarrow> int \<Rightarrow> int list \<Rightarrow> rate_check list \<times> rate_store" where
  "checkRateLimit_seq store uid n [] = ([], store)"
| "checkRateLimit_seq store uid n (t # ts) =
     (let (r, store') = checkRateLimit store t uid n;
          (rs, store'') = checkRateLimit_seq store' uid n ts
      in (r # rs, store''))"

text \<open>
  The expected result of call number \<open>k\<close> (counted from 0) of a window that ends at \<open>r\<close>,
  made at time \<open>t\<close> under the limit \<open>n\<close>; \<open>in_window\<close> is the same for a window that
  already holds \<open>c\<close> calls.
\<close>

definition in_window :: "int \<Rightarrow> int \<Rightarrow> int \<Rightarrow> nat \<Rightarrow> int \<Rightarrow> rate_check" where
  "in_window n r c k t =
     (if c + int k < n
      then \<lparr>allowed = True, remaining = n - (c + int k + 1), resetIn = \<lceil>real_of_int (r - t) / 1000\<rceil>\<rparr>
      else \<lparr>allowed = False, remaining = 0, resetIn = \<lceil>real_of_int (r - t) / 1000\<rceil>\<rparr>)"

definition window_call :: "int \<Rightarrow> int \<Rightarrow> nat \<Rightarrow> int \<Rightarrow> rate_check" where
  "window_call n r k t =
     (if int k < n
      then \<lparr>allowed = True, remaining = n - int k - 1, resetIn = \<lceil>real_of_int (r - t) / 1000\<rceil>\<rparr>
      else \<lparr>allowed = False, remaining = 0, resetIn = \<lceil>real_of_int (r - t) / 1000\<rceil>\<rparr>)"

section \<open>Tool registry\<close>

text \<open>
  What JavaScript code throws: an \<^verbatim>\<open>Error\<close> with its message, a \<^verbatim>\<open>ZodError\<close> with its
  issues (and its own message), or any other thrown value.
\<close>

record issue =
  path :: "string list"
  message :: string

datatype js_exn =
    Error string
  | ZodError "issue list" string
  | Thrown json

text \<open>
  A schema enters execution only through its \<^verbatim>\<open>parse\<close> method, which returns the
  parsed value or throws; the schema library is outside the sources, so a schema is
  modelled by that function. A tool's \<^verbatim>\<open>execute\<close> returns its result or throws.
\<close>

type_synonym zod_parse = "json \<Rightarrow> js_exn + json"

record ToolDefinition =
  name :: string
  description :: string
  inputSchema :: zod_parse
  outputSchema :: "zod_parse option"
  requiredScopes :: "string list option"
  rateLimit :: "int option"
  execute :: "json \<Rightarrow> ExecutionContext \<Rightarrow> js_exn + json"

text \<open>
  The registry made by \<^verbatim>\<open>createToolRegistry\<close>: the tool map and the two options
  (\<open>logger\<close> says whether a logger was supplied; \<open>validateOutputs\<close> defaults to true at
  construction).
\<close>

record ToolRegistry =
  tools :: "string \<rightharpoonup> ToolDefinition"
  logger :: bool
  validateOutputs :: bool

text \<open>
  What a call of \<^verbatim>\<open>executeTool\<close> does besides returning: the executor invocations
  (validated input and context) and the error-level log lines with their issues.
\<close>

record effects =
  executed :: "(json \<times> ExecutionContext) list"
  logged :: "(string \<times> issue list) list"

definition quote :: "string \<Rightarrow> string" where
  "quote s = [CHR 0x27] @ s @ [CHR 0x27]"

definition issue_text :: "issue \<Rightarrow> string" where
  "issue_text e = join ''.'' (path e) @ '': '' @ message e"

definition executeTool ::
  "ToolRegistry \<Rightarrow> string \<Rightarrow> json \<Rightarrow> ExecutionContext \<Rightarrow> (js_exn + json) \<times> effects" where
  "executeTool reg nm inp ctx =
     (case tools reg nm of
        None \<Rightarrow> (Inl (Error (''Unknown tool: '' @ nm)), \<lparr>executed = [], logged = []\<rparr>)
      | Some tool \<Rightarrow>
          (case inputSchema tool inp of
             Inl (ZodError issues m) \<Rightarrow>
               (Inl (Error (''Invalid input for tool '' @ quote nm @ '': ''
                              @ join '', '' (map issue_text issues))),
                \<lparr>executed = [], logged = []\<rparr>)
           | Inl e \<Rightarrow> (Inl e, \<lparr>executed = [], logged = []\<rparr>)
           | Inr validatedInput \<Rightarrow>
               (case execute tool validatedInput ctx of
                  Inl e \<Rightarrow> (Inl e, \<lparr>executed = [(validatedInput, ctx)], logged = []\<rparr>)
                | Inr res \<Rightarrow>
                    (case (if validateOutputs reg then outputSchema tool else None) of
                       None \<Rightarrow> (Inr res, \<lparr>executed = [(validatedInput, ctx)], logged = []\<rparr>)
                     | Some outParse \<Rightarrow>
                         (case outParse res of
                            Inr parsed \<Rightarrow>
                              (Inr parsed, \<lparr>executed = [(validatedInput, ctx)], logged = []\<rparr>)
                          | Inl (ZodError issues m) \<Rightarrow>
                              (Inr res,
                               \<lparr>executed = [(validatedInput, ctx)],
                                logged = (if logger reg
                                          then [(''Tool '' @ quote nm @ '' returned invalid output'', issues)]
                                          else [])\<rparr>)
                          | Inl e \<Rightarrow>
                              (Inr res, \<lparr>executed = [(validatedInput, ctx)], logged = []\<rparr>))))))"

section \<open>Dispatch with checks\<close>

text \<open>\<^verbatim>\<open>TokenConfig\<close> and \<^verbatim>\<open>ToolBridgeConfig\<close> of \<^verbatim>\<open>core/types.ts\<close>.\<close>

record TokenConfig =
  secretKey :: string
  expirationSeconds :: "nat option"
  audience :: "string option"

record ToolBridgeConfig =
  serverUrl :: string
  tokenConfig :: TokenConfig
  enableRateLimiting :: "bool option"
  defaultRateLimit :: "int option"

text \<open>
  The fields of \<^verbatim>\<open>BaseToolBridgeProtocol\<close> that dispatch reads and writes: \<open>config\<close> and
  \<open>registry\<close> are null until \<^verbatim>\<open>initialize\<close> has run.
\<close>

record protocol =
  config :: "ToolBridgeConfig option"
  registry :: "ToolRegistry option"
  rateLimitStore :: rate_store

text \<open>\<^verbatim>\<open>ToolBridgeResult\<close>; its \<open>error\<close> is the pair of code and message.\<close>

record ToolBridgeResult =
  success :: bool
  result :: "json option"
  error :: "(string \<times> string) option"
  executionTimeMs :: int

text \<open>Decimal rendering of an integer, as a template literal renders it.\<close>

definition digit_char :: "nat \<Rightarrow> char" where
  "digit_char d = char_of (of_char CHR ''0'' + d)"

fun decimal :: "nat \<Rightarrow> string" where
  "decimal n = (if 10 \<le> n then decimal (n div 10) @ [digit_char (n mod 10)] else [digit_char n])"

declare decimal.simps [simp del]

definition number_text :: "int \<Rightarrow> string" where
  "number_text i = (if 0 \<le> i then decimal (nat i) else CHR ''-'' # decimal (nat (- i)))"

definition failure :: "string \<Rightarrow> string \<Rightarrow> int \<Rightarrow> ToolBridgeResult" where
  "failure c m ms = \<lparr>success = False, result = None, error = Some (c, m), executionTimeMs = ms\<rparr>"

text \<open>
  \<^verbatim>\<open>error instanceof Error ? error.message : "Unknown error"\<close>
\<close>

fun exn_message :: "js_exn \<Rightarrow> string" where
  "exn_message (Error m) = m"
| "exn_message (ZodError issues m) = m"
| "exn_message (Thrown v) = ''Unknown error''"

text \<open>
  The \<^verbatim>\<open>try\<close>/\<^verbatim>\<open>catch\<close> around \<^verbatim>\<open>registry.executeTool\<close> at the end of
  \<^verbatim>\<open>executeToolWithChecks\<close>; \<open>elapsed\<close> is \<^verbatim>\<open>Date.now() - startTime\<close> at the return.
\<close>

definition execute_caught ::
  "ToolRegistry \<Rightarrow> int \<Rightarrow> string \<Rightarrow> json \<Rightarrow> ExecutionContext \<Rightarrow> ToolBridgeResult \<times> effects" where
  "execute_caught reg elapsed toolName inp ctx =
     (case executeTool reg toolName inp ctx of
        (Inr res, eff) \<Rightarrow>
          (\<lparr>success = True, result = Some res, error = None, executionTimeMs = elapsed\<rparr>, eff)
      | (Inl e, eff) \<Rightarrow> (failure ''EXECUTION_ERROR'' (exn_message e) elapsed, eff))"

text \<open>
  \<^verbatim>\<open>this.config?.enableRateLimiting\<close> as a condition, and
  \<^verbatim>\<open>tool.rateLimit ?? this.config.defaultRateLimit ?? 60\<close>.
\<close>

definition limiting :: "protocol \<Rightarrow> bool" where
  "limiting p = (case config p of None \<Rightarrow> False
                 | Some c \<Rightarrow> (case enableRateLimiting c of None \<Rightarrow> False | Some b \<Rightarrow> b))"

definition limit_for :: "protocol \<Rightarrow> ToolDefinition \<Rightarrow> int" where
  "limit_for p tool =
     (case rateLimit tool of
        Some l \<Rightarrow> l
      | None \<Rightarrow> (case config p of None \<Rightarrow> 60
                  | Some c \<Rightarrow> (case defaultRateLimit c of Some d \<Rightarrow> d | None \<Rightarrow> 60)))"

text \<open>\<^verbatim>\<open>tool.requiredScopes ?? []\<close>\<close>

definition required_of :: "ToolDefinition \<Rightarrow> string list" where
  "required_of tool = (case requiredScopes tool of None \<Rightarrow> [] | Some r \<Rightarrow> r)"

text \<open>
  \<^verbatim>\<open>BaseToolBridgeProtocol.executeToolWithChecks\<close>. The three clock arguments are the
  readings of \<^verbatim>\<open>Date.now()\<close> at the start of the call, inside \<^verbatim>\<open>checkRateLimit\<close> and at
  the \<^verbatim>\<open>return\<close> that ends the call. The function returns the result, the protocol with
  its rate-limit store as the call left it, and the effects of the registry call.
\<close>

definition executeToolWithChecks ::
  "protocol \<Rightarrow> int \<Rightarrow> int \<Rightarrow> int \<Rightarrow> string \<Rightarrow> json \<Rightarrow> ExecutionContext
     \<Rightarrow> ToolBridgeResult \<times> protocol \<times> effects" where
  "executeToolWithChecks p startTime rateNow endTime toolName inp ctx =
     (let quiet = \<lparr>executed = [], logged = []\<rparr> in
      case registry p of
        None \<Rightarrow> (failure ''NOT_INITIALIZED'' ''Protocol not initialized'' (endTime - startTime), p, quiet)
      | Some reg \<Rightarrow>
          (case tools reg toolName of
             None \<Rightarrow> (failure ''NOT_FOUND'' (''Unknown tool: '' @ toolName) (endTime - startTime), p, quiet)
           | Some tool \<Rightarrow>
               (let required = required_of tool in
                if \<not> checkAuthorization ctx required then
                  (failure ''FORBIDDEN''
                     (''Missing required scope. Required: '' @ join '' or '' required)
                     (endTime - startTime), p, quiet)
                else if limiting p then
                  (let (rateCheck, store') =
                         checkRateLimit (rateLimitStore p) rateNow (userId ctx) (limit_for p tool);
                       p' = p\<lparr>rateLimitStore := store'\<rparr>
                   in if \<not> allowed rateCheck then
                        (failure ''RATE_LIMITED''
                           (''Rate limit exceeded. Try again in '' @ number_text (resetIn rateCheck)
                              @ '' seconds'')
                           (endTime - startTime), p', quiet)
                      else
                        (let (r, eff) = execute_caught reg (endTime - startTime) toolName inp ctx
                         in (r, p', eff)))
                else
                  (let (r, eff) = execute_caught reg (endTime - startTime) toolName inp ctx
                   in (r, p, eff)))))"

text \<open>
  The store after one more call of the user has been counted at time \<open>now\<close>: a new
  window with count 1 when there is no entry or its reset time has passed, the count
  raised by one otherwise. The error code of a result.
\<close>

definition consume_slot :: "rate_store \<Rightarrow> int \<Rightarrow> string \<Rightarrow> rate_store" where
  "consume_slot store now uid =
     store(''rate:'' @ uid \<mapsto>
       (case store (''rate:'' @ uid) of
          None \<Rightarrow> \<lparr>count = 1, resetTime = now + 60000\<rparr>
        | Some e \<Rightarrow> if resetTime e < now then \<lparr>count = 1, resetTime = now + 60000\<rparr>
                    else e\<lparr>count := count e + 1\<rparr>))"

definition error_code :: "ToolBridgeResult \<Rightarrow> string option" where
  "error_code r = map_option fst (error r)"

section \<open>Execution tokens\<close>

text \<open>
  The claims of a token: the private claims that carry the execution context, and the
  registered claims \<^verbatim>\<open>iat\<close>, \<^verbatim>\<open>exp\<close> (both in whole seconds), \<^verbatim>\<open>sub\<close> and \<^verbatim>\<open>aud\<close>.
  A token string is modelled by what it decodes to: a compact serialization signed with
  some secret, or text that is no such serialization. The signature is symbolic: it
  verifies exactly under the secret that made it.
\<close>

record jwt_claims =
  claim_context :: ExecutionContext
  claim_iat :: "int option"
  claim_exp :: "int option"
  claim_sub :: "string option"
  claim_aud :: "string option"

datatype token =
    Compact string jwt_claims
  | Garbage string

datatype jose_error =
    JWSInvalid
  | JWSSignatureVerificationFailed
  | JWTClaimValidationFailed
  | JWTExpired

text \<open>
  Modelled from the spec: the JWT library (\<^verbatim>\<open>jose\<close>) is not part of the sources. A token
  is accepted only if its signature verifies, its audience is the expected one and the
  current time is before its expiry; each failure throws an error of its own class.
  \<open>now\<close> is the clock in milliseconds, read in whole seconds as the library does.
\<close>

definition jwtVerify :: "int \<Rightarrow> token \<Rightarrow> string \<Rightarrow> string \<Rightarrow> jose_error + jwt_claims" where
  "jwtVerify now tok secret expected =
     (case tok of
        Garbage t \<Rightarrow> Inl JWSInvalid
      | Compact signer payload \<Rightarrow>
          if signer \<noteq> secret then Inl JWSSignatureVerificationFailed
          else if claim_aud payload \<noteq> Some expected then Inl JWTClaimValidationFailed
          else (case claim_exp payload of
                  Some e \<Rightarrow> if e \<le> now div 1000 then Inl JWTExpired else Inr payload
                | None \<Rightarrow> Inr payload))"

text \<open>
  Modelled from the spec: \<^verbatim>\<open>SignJWT\<close> of the same library, as \<^verbatim>\<open>createExecutionToken\<close>
  drives it: issuance time now, expiry that many seconds later, signed with the secret.
\<close>

definition signJWT ::
  "int \<Rightarrow> ExecutionContext \<Rightarrow> nat \<Rightarrow> string option \<Rightarrow> string \<Rightarrow> string \<Rightarrow> token" where
  "signJWT now payload seconds subject aud secret =
     Compact secret
       \<lparr>claim_context = payload, claim_iat = Some (now div 1000),
         claim_exp = Some (now div 1000 + int seconds), claim_sub = subject,
         claim_aud = Some aud\<rparr>"

text \<open>\<^verbatim>\<open>createExecutionToken\<close> of \<^verbatim>\<open>utils/token.ts\<close>; \<open>now\<close> is the clock at issue.\<close>

definition createExecutionToken :: "TokenConfig \<Rightarrow> ExecutionContext \<Rightarrow> int \<Rightarrow> token" where
  "createExecutionToken cfg ctx now =
     (let secret = secretKey cfg;
          seconds = (case expirationSeconds cfg of None \<Rightarrow> 300 | Some s \<Rightarrow> s);
          aud = (case audience cfg of None \<Rightarrow> ''tool-bridge'' | Some a \<Rightarrow> a)
      in signJWT now
           \<lparr>userId = userId ctx, sessionId = sessionId ctx, organizationId = organizationId ctx,
            scopes = scopes ctx, metadata = metadata ctx\<rparr>
           seconds (Some (userId ctx)) aud secret)"

text \<open>
  \<^verbatim>\<open>verifyExecutionToken\<close> of \<^verbatim>\<open>utils/token.ts\<close>. The library call is the parameter
  \<open>verify\<close> (any function that returns the payload or throws); the \<^verbatim>\<open>catch\<close> turns
  every throw into \<^verbatim>\<open>null\<close>, here \<open>None\<close>.
\<close>

definition verifyExecutionToken ::
  "(int \<Rightarrow> token \<Rightarrow> string \<Rightarrow> string \<Rightarrow> 'e + jwt_claims) \<Rightarrow> TokenConfig \<Rightarrow> token \<Rightarrow> int
     \<Rightarrow> ExecutionContext option" where
  "verifyExecutionToken verify cfg tok now =
     (let secret = secretKey cfg;
          aud = (case audience cfg of None \<Rightarrow> ''tool-bridge'' | Some a \<Rightarrow> a)
      in case verify now tok secret aud of
           Inr payload \<Rightarrow>
             Some \<lparr>userId = userId (claim_context payload),
                   sessionId = sessionId (claim_context payload),
                   organizationId = organizationId (claim_context payload),
                   scopes = scopes (claim_context payload),
                   metadata = metadata (claim_context payload)\<rparr>
         | Inl e \<Rightarrow> None)"

text \<open>
  \<^verbatim>\<open>TRPCToolBridgeProtocol.verifyExecutionToken\<close>: the same, on the protocol's
  configuration, with \<^verbatim>\<open>null\<close> before initialization and its own default audience.
\<close>

definition trpc_verifyExecutionToken ::
  "(int \<Rightarrow> token \<Rightarrow> string \<Rightarrow> string \<Rightarrow> 'e + jwt_claims) \<Rightarrow> protocol \<Rightarrow> token \<Rightarrow> int
     \<Rightarrow> ExecutionContext option" where
  "trpc_verifyExecutionToken verify p tok now =
     (case config p of
        None \<Rightarrow> None
      | Some c \<Rightarrow>
          (case verify now tok (secretKey (tokenConfig c))
                  (case audience (tokenConfig c) of None \<Rightarrow> ''tool-bridge-trpc'' | Some a \<Rightarrow> a) of
             Inr payload \<Rightarrow>
               Some \<lparr>userId = userId (claim_context payload),
                     sessionId = sessionId (claim_context payload),
                     organizationId = organizationId (claim_context payload),
                     scopes = scopes (claim_context payload),
                     metadata = metadata (claim_context payload)\<rparr>
           | Inl e \<Rightarrow> None))"

section \<open>Schema adapter\<close>

text \<open>
  A schema as the type generator sees it: its class (the \<^verbatim>\<open>instanceof\<close> tests) and the
  parts it reads. An enum and a literal carry the two internal definition objects the
  code looks for, \<^verbatim>\<open>schema._zod.def\<close> and \<^verbatim>\<open>schema._def\<close>, each of which may be absent, with
  its \<^verbatim>\<open>entries\<close> (the values in \<^verbatim>\<open>Object.values\<close> order) or \<^verbatim>\<open>values\<close>, which may be absent
  too; a literal also carries what reading its \<^verbatim>\<open>value\<close> property does, which is to give
  a value or to throw, since version 4 of the library makes that property a getter.
  \<open>ZodOther\<close> is any class other than those tested. Literal values are strings, integers,
  booleans, \<^verbatim>\<open>null\<close> and \<^verbatim>\<open>undefined\<close>.
\<close>

datatype lit = LStr string | LNum int | LBool bool | LNull | LUndefined

datatype enum_def = EnumDef "(string \<times> string) list option"

datatype literal_def = LiteralDef "lit list option"

datatype zod =
    ZodObject "(string \<times> zod) list"
  | ZodString
  | ZodNumber
  | ZodBoolean
  | ZodArray zod
  | ZodOptional zod
  | ZodNullable zod
  | ZodRecord
  | ZodEnum "enum_def option" "enum_def option"
  | ZodLiteral "literal_def option" "literal_def option" "js_exn + lit"
  | ZodUnion "zod list"
  | ZodDefault zod
  | ZodOther string

text \<open>A string between double quotes; \<^verbatim>\<open>String(v)\<close> of a literal, quoted when a string.\<close>

definition dquote :: "string \<Rightarrow> string" where
  "dquote s = CHR 0x22 # s @ [CHR 0x22]"

fun render_lit :: "lit \<Rightarrow> string" where
  "render_lit (LStr s) = dquote s"
| "render_lit (LNum i) = number_text i"
| "render_lit (LBool b) = (if b then ''true'' else ''false'')"
| "render_lit LNull = ''null''"
| "render_lit LUndefined = ''undefined''"

text \<open>The values that \<^verbatim>\<open>??\<close> replaces by its right operand.\<close>

fun nullish :: "lit \<Rightarrow> bool" where
  "nullish LNull = True"
| "nullish LUndefined = True"
| "nullish v = False"

text \<open>
  The schemas that version 4 of the library builds for \<^verbatim>\<open>z.enum\<close> and \<^verbatim>\<open>z.literal\<close>, and
  the one that version 3 builds for \<^verbatim>\<open>z.enum\<close>. In version 4 \<^verbatim>\<open>_def\<close> and \<^verbatim>\<open>_zod.def\<close> are
  the same object, which holds the \<^verbatim>\<open>entries\<close> of an enum and the \<^verbatim>\<open>values\<close> of a literal;
  the \<^verbatim>\<open>value\<close> getter of a literal throws when the literal has more than one value and
  gives the only value otherwise. In version 3 there is no \<^verbatim>\<open>_zod\<close>, and the \<^verbatim>\<open>_def\<close> of an
  enum holds \<^verbatim>\<open>values\<close> and no \<^verbatim>\<open>entries\<close>.
\<close>

definition zod4_enum :: "string list \<Rightarrow> zod" where
  "zod4_enum vs = ZodEnum (Some (EnumDef (Some (map (\<lambda>v. (v, v)) vs))))
                          (Some (EnumDef (Some (map (\<lambda>v. (v, v)) vs))))"

definition zod4_literal :: "lit list \<Rightarrow> zod" where
  "zod4_literal vs =
     ZodLiteral (Some (LiteralDef (Some vs))) (Some (LiteralDef (Some vs)))
       (if length vs > 1
        then Inl (Error (''This schema has multiple valid values. Use '' @ [CHR 0x60]
                           @ ''.values'' @ [CHR 0x60] @ '' instead.''))
        else Inr (case vs of [] \<Rightarrow> LUndefined | v # rest \<Rightarrow> v))"

definition zod3_enum :: zod where
  "zod3_enum = ZodEnum None (Some (EnumDef None))"

text \<open>\<^verbatim>\<open>getZod4Def\<close>: the definition under \<^verbatim>\<open>_zod.def\<close> when there is one, else \<^verbatim>\<open>_def\<close>.\<close>

definition getZod4Def :: "'d option \<Rightarrow> 'd option \<Rightarrow> 'd option" where
  "getZod4Def zodDef legacyDef = (case zodDef of Some d \<Rightarrow> Some d | None \<Rightarrow> legacyDef)"

text \<open>
  \<^verbatim>\<open>zodToTypeString\<close> of the registry that guards its reads of the internals (the first
  copy in the sources). It has no statement that can throw.
\<close>

fun zodToTypeString :: "zod \<Rightarrow> string \<Rightarrow> string"
  and union_members :: "zod list \<Rightarrow> string \<Rightarrow> nat \<Rightarrow> string list" where
  "zodToTypeString (ZodObject shape) typeName = typeName"
| "zodToTypeString ZodString typeName = ''string''"
| "zodToTypeString ZodNumber typeName = ''number''"
| "zodToTypeString ZodBoolean typeName = ''boolean''"
| "zodToTypeString (ZodArray element) typeName = zodToTypeString element ''Element'' @ ''[]''"
| "zodToTypeString (ZodOptional inner) typeName = zodToTypeString inner typeName @ '' | undefined''"
| "zodToTypeString (ZodNullable inner) typeName = zodToTypeString inner typeName @ '' | null''"
| "zodToTypeString ZodRecord typeName = ''Record<string, unknown>''"
| "zodToTypeString (ZodEnum zodDef legacyDef) typeName =
     (case getZod4Def zodDef legacyDef of
        Some (EnumDef (Some entries)) \<Rightarrow> join '' | '' (map (\<lambda>v. dquote v) (map snd entries))
      | _ \<Rightarrow> ''string'')"
| "zodToTypeString (ZodLiteral zodDef legacyDef getter) typeName =
     (case getZod4Def zodDef legacyDef of
        Some (LiteralDef (Some vs)) \<Rightarrow>
          if length vs > 0 then
            (if length vs > 1 then join '' | '' (map render_lit vs) else render_lit (hd vs))
          else ''unknown''
      | _ \<Rightarrow> ''unknown'')"
| "zodToTypeString (ZodUnion options) typeName = join '' | '' (union_members options typeName 0)"
| "zodToTypeString (ZodDefault inner) typeName = typeName"
| "zodToTypeString (ZodOther kind) typeName = typeName"
| "union_members [] typeName i = []"
| "union_members (t # ts) typeName i =
     zodToTypeString t (typeName @ decimal i) # union_members ts typeName (Suc i)"

text \<open>
  \<^verbatim>\<open>zodToTypeString\<close> of the other registry copy, which reads \<^verbatim>\<open>schema._def\<close> and
  \<^verbatim>\<open>Object.values(enumDef.entries)\<close> without a guard: reading a property of an absent
  definition and \<^verbatim>\<open>Object.values(undefined)\<close> throw a \<^verbatim>\<open>TypeError\<close>. For a literal it takes
  \<^verbatim>\<open>def.values?.[0] ?? literalSchema.value\<close>: the getter is read when the first value is
  nullish (or there is none), and what the getter throws leaves the function.
\<close>

fun zodToTypeString_unguarded :: "zod \<Rightarrow> string \<Rightarrow> js_exn + string"
  and union_members_unguarded :: "zod list \<Rightarrow> string \<Rightarrow> nat \<Rightarrow> js_exn + string list" where
  "zodToTypeString_unguarded (ZodObject shape) typeName = Inr typeName"
| "zodToTypeString_unguarded ZodString typeName = Inr ''string''"
| "zodToTypeString_unguarded ZodNumber typeName = Inr ''number''"
| "zodToTypeString_unguarded ZodBoolean typeName = Inr ''boolean''"
| "zodToTypeString_unguarded (ZodArray element) typeName =
     (case zodToTypeString_unguarded element ''Element'' of
        Inl e \<Rightarrow> Inl e | Inr elementType \<Rightarrow> Inr (elementType @ ''[]''))"
| "zodToTypeString_unguarded (ZodOptional inner) typeName =
     (case zodToTypeString_unguarded inner typeName of
        Inl e \<Rightarrow> Inl e | Inr innerType \<Rightarrow> Inr (innerType @ '' | undefined''))"
| "zodToTypeString_unguarded (ZodNullable inner) typeName =
     (case zodToTypeString_unguarded inner typeName of
        Inl e \<Rightarrow> Inl e | Inr innerType \<Rightarrow> Inr (innerType @ '' | null''))"
| "zodToTypeString_unguarded ZodRecord typeName = Inr ''Record<string, unknown>''"
| "zodToTypeString_unguarded (ZodEnum zodDef legacyDef) typeName =
     (case legacyDef of
        None \<Rightarrow> Inl (Error (''Cannot read properties of undefined (reading ''
                              @ quote ''entries'' @ '')''))
      | Some (EnumDef None) \<Rightarrow> Inl (Error ''Cannot convert undefined or null to object'')
      | Some (EnumDef (Some entries)) \<Rightarrow>
          Inr (join '' | '' (map (\<lambda>v. dquote v) (map snd entries))))"
| "zodToTypeString_unguarded (ZodLiteral zodDef legacyDef getter) typeName =
     (case legacyDef of
        None \<Rightarrow> Inl (Error (''Cannot read properties of undefined (reading ''
                              @ quote ''values'' @ '')''))
      | Some (LiteralDef vs) \<Rightarrow>
          (let first = (case vs of
                          None \<Rightarrow> LUndefined
                        | Some [] \<Rightarrow> LUndefined
                        | Some (v # rest) \<Rightarrow> v)
           in if nullish first
              then (case getter of Inl e \<Rightarrow> Inl e | Inr v \<Rightarrow> Inr (render_lit v))
              else Inr (render_lit first)))"
| "zodToTypeString_unguarded (ZodUnion options) typeName =
     (case union_members_unguarded options typeName 0 of
        Inl e \<Rightarrow> Inl e | Inr types \<Rightarrow> Inr (join '' | '' types))"
| "zodToTypeString_unguarded (ZodDefault inner) typeName = Inr typeName"
| "zodToTypeString_unguarded (ZodOther kind) typeName = Inr typeName"
| "union_members_unguarded [] typeName i = Inr []"
| "union_members_unguarded (t # ts) typeName i =
     (case zodToTypeString_unguarded t (typeName @ decimal i) of
        Inl e \<Rightarrow> Inl e
      | Inr s \<Rightarrow> (case union_members_unguarded ts typeName (Suc i) of
                    Inl e \<Rightarrow> Inl e | Inr rest \<Rightarrow> Inr (s # rest)))"

text \<open>
  The schemas whose enums carry \<^verbatim>\<open>_def.entries\<close> and whose literals carry \<^verbatim>\<open>_def\<close> with a
  first value that is not nullish, in every part the generator visits.
\<close>

fun zod4_shaped :: "zod \<Rightarrow> bool" and zod4_shaped_all :: "zod list \<Rightarrow> bool" where
  "zod4_shaped (ZodArray element) = zod4_shaped element"
| "zod4_shaped (ZodOptional inner) = zod4_shaped inner"
| "zod4_shaped (ZodNullable inner) = zod4_shaped inner"
| "zod4_shaped (ZodEnum zodDef legacyDef) =
     (case legacyDef of Some (EnumDef (Some entries)) \<Rightarrow> True | _ \<Rightarrow> False)"
| "zod4_shaped (ZodLiteral zodDef legacyDef getter) =
     (case legacyDef of
        Some (LiteralDef (Some (v # rest))) \<Rightarrow> \<not> nullish v
      | _ \<Rightarrow> False)"
| "zod4_shaped (ZodUnion options) = zod4_shaped_all options"
| "zod4_shaped (ZodObject shape) = True"
| "zod4_shaped ZodString = True"
| "zod4_shaped ZodNumber = True"
| "zod4_shaped ZodBoolean = True"
| "zod4_shaped ZodRecord = True"
| "zod4_shaped (ZodDefault inner) = True"
| "zod4_shaped (ZodOther kind) = True"
| "zod4_shaped_all [] = True"
| "zod4_shaped_all (t # ts) = (zod4_shaped t \<and> zod4_shaped_all ts)"

section \<open>Trace reconstruction\<close>

text \<open>
  Characters are code units below 256. The classes of the regular expressions:
  \<^verbatim>\<open>\w\<close> is a letter, a digit or the underscore; \<^verbatim>\<open>\s\<close> is tab, line feed, vertical tab,
  form feed, carriage return, space or no-break space; \<^verbatim>\<open>.\<close> matches everything but the
  line terminators.
\<close>

definition is_word :: "char \<Rightarrow> bool" where
  "is_word c = (c \<in> set (''abcdefghijklmnopqrstuvwxyz'' @ ''ABCDEFGHIJKLMNOPQRSTUVWXYZ''
                          @ ''0123456789'' @ ''_''))"

definition is_space :: "char \<Rightarrow> bool" where
  "is_space c = (c \<in> set [CHR 0x09, CHR 0x0A, CHR 0x0B, CHR 0x0C, CHR 0x0D, CHR 0x20, CHR 0xA0])"

definition is_line_terminator :: "char \<Rightarrow> bool" where
  "is_line_terminator c = (c = CHR 0x0A \<or> c = CHR 0x0D)"

text \<open>
  The pattern \<^verbatim>\<open>\[TAG:(\w+)\]\s*(.*)\<close> tried at the start of a string, and
  \<^verbatim>\<open>line.match\<close> of it: the leftmost position where it matches, with the two groups.
  The closing bracket is no word character, so the greedy name is the only candidate;
  the greedy \<^verbatim>\<open>\s*\<close> and \<^verbatim>\<open>(.*)\<close> always match.
\<close>

definition match_here :: "string \<Rightarrow> string \<Rightarrow> (string \<times> string) option" where
  "match_here tag s =
     (let opening = ''['' @ tag @ '':'' in
      if take (length opening) s = opening then
        (let rest = drop (length opening) s;
             toolName = takeWhile is_word rest;
             after = dropWhile is_word rest
         in case after of
              c # tail \<Rightarrow>
                if toolName \<noteq> [] \<and> c = CHR '']''
                then Some (toolName,
                           takeWhile (\<lambda>x. \<not> is_line_terminator x) (dropWhile is_space tail))
                else None
            | [] \<Rightarrow> None)
      else None)"

fun match_marker :: "string \<Rightarrow> string \<Rightarrow> (string \<times> string) option" where
  "match_marker tag [] = match_here tag []"
| "match_marker tag (c # cs) =
     (case match_here tag (c # cs) of Some m \<Rightarrow> Some m | None \<Rightarrow> match_marker tag cs)"

text \<open>
  What the chain of the three \<^verbatim>\<open>match\<close> tests makes of a line: the first pattern that
  matches decides, with the tool name and the text after the marker.
\<close>

datatype marker =
    CallStart string string
  | CallResult string string
  | CallError string string
  | Plain

definition classify :: "string \<Rightarrow> marker" where
  "classify line =
     (case match_marker ''TOOL_CALL'' line of
        Some (toolName, inputJson) \<Rightarrow> CallStart toolName inputJson
      | None \<Rightarrow>
          (case match_marker ''TOOL_RESULT'' line of
             Some (toolName, resultJson) \<Rightarrow> CallResult toolName resultJson
           | None \<Rightarrow>
               (case match_marker ''TOOL_ERROR'' line of
                  Some (toolName, errorJson) \<Rightarrow> CallError toolName errorJson
                | None \<Rightarrow> Plain)))"

text \<open>
  Reading the property \<^verbatim>\<open>durationMs\<close> or \<^verbatim>\<open>error\<close> of a parsed value: a \<^verbatim>\<open>TypeError\<close> on
  \<^verbatim>\<open>null\<close>, the member of an object, \<^verbatim>\<open>undefined\<close> (here \<open>None\<close>) otherwise. Truthiness,
  and \<^verbatim>\<open>x || 0\<close>.
\<close>

fun get_prop :: "json \<Rightarrow> string \<Rightarrow> js_exn + json option" where
  "get_prop JNull k = Inl (Error ''Cannot read properties of null'')"
| "get_prop (JObj kvs) k = Inr (map_of kvs k)"
| "get_prop v k = Inr None"

fun truthy :: "json \<Rightarrow> bool" where
  "truthy JNull = False"
| "truthy (JBool b) = b"
| "truthy (JNum x) = (x \<noteq> 0)"
| "truthy (JStr s) = (s \<noteq> [])"
| "truthy (JArr xs) = True"
| "truthy (JObj kvs) = True"

definition or_zero :: "json option \<Rightarrow> json" where
  "or_zero x = (case x of Some v \<Rightarrow> if truthy v then v else JNum 0 | None \<Rightarrow> JNum 0)"

text \<open>
  \<^verbatim>\<open>ToolCallRecord\<close>. The fields \<^verbatim>\<open>tool\<close>, \<^verbatim>\<open>input\<close>, \<^verbatim>\<open>output\<close>, \<^verbatim>\<open>success\<close> and \<^verbatim>\<open>error\<close>
  carry the prefix \<open>call_\<close> here; \<open>durationMs\<close> holds whatever value the marker carried.
\<close>

record ToolCallRecord =
  call_tool :: string
  call_input :: json
  call_output :: json
  durationMs :: json
  call_success :: bool
  call_error :: "json option"

text \<open>
  The state of the loop of \<^verbatim>\<open>parseToolCallsFromOutput\<close>. The records of \<open>toolCalls\<close> are
  objects that \<open>toolCallMap\<close> shares: the map holds the position of a record in the
  list, and an update through the map is an update of the list at that position.
\<close>

record parse_state =
  toolCalls :: "ToolCallRecord list"
  toolCallMap :: "string \<rightharpoonup> nat"
  cleanLines :: "string list"

definition update_call :: "parse_state \<Rightarrow> nat \<Rightarrow> (ToolCallRecord \<Rightarrow> ToolCallRecord) \<Rightarrow> parse_state" where
  "update_call st i f =
     (if i < length (toolCalls st) then st\<lparr>toolCalls := (toolCalls st)[i := f (toolCalls st ! i)]\<rparr>
      else st)"

text \<open>
  One iteration of the loop; \<open>parse\<close> is \<^verbatim>\<open>JSON.parse\<close>, with \<open>None\<close> where it throws. Each
  \<^verbatim>\<open>catch\<close> leaves the state as the statements before the throw made it.
\<close>

definition step :: "(string \<Rightarrow> json option) \<Rightarrow> parse_state \<Rightarrow> string \<Rightarrow> parse_state" where
  "step parse st line =
     (case classify line of
        CallStart toolName inputJson \<Rightarrow>
          (case parse inputJson of
             None \<Rightarrow> st
           | Some v \<Rightarrow>
               st\<lparr>toolCalls := toolCalls st @
                      [\<lparr>call_tool = toolName, call_input = v, call_output = JNull, durationMs = JNum 0,
                        call_success = False, call_error = None\<rparr>],
                   toolCallMap := (toolCallMap st)(toolName \<mapsto> length (toolCalls st))\<rparr>)
      | CallResult toolName resultJson \<Rightarrow>
          (case parse resultJson of
             None \<Rightarrow> st
           | Some resultData \<Rightarrow>
               (case toolCallMap st toolName of
                  None \<Rightarrow> st
                | Some i \<Rightarrow>
                    (case get_prop resultData ''durationMs'' of
                       Inl e \<Rightarrow> st
                     | Inr d \<Rightarrow>
                         update_call st i (\<lambda>r. r\<lparr>durationMs := or_zero d, call_success := True\<rparr>))))
      | CallError toolName errorJson \<Rightarrow>
          (case parse errorJson of
             None \<Rightarrow> st
           | Some errorData \<Rightarrow>
               (case toolCallMap st toolName of
                  None \<Rightarrow> st
                | Some i \<Rightarrow>
                    (case get_prop errorData ''durationMs'' of
                       Inl e \<Rightarrow> st
                     | Inr d \<Rightarrow>
                         update_call st i
                           (\<lambda>r. r\<lparr>durationMs := or_zero d, call_success := False,
                                   call_error := (case get_prop errorData ''error'' of
                                                    Inr x \<Rightarrow> x | Inl e \<Rightarrow> None)\<rparr>))))
      | Plain \<Rightarrow> st\<lparr>cleanLines := cleanLines st @ [line]\<rparr>)"

text \<open>\<^verbatim>\<open>output.split("\n")\<close> and \<^verbatim>\<open>String.prototype.trim\<close>.\<close>

fun split_lines :: "string \<Rightarrow> string list" where
  "split_lines [] = [[]]"
| "split_lines (c # cs) =
     (if c = CHR 0x0A then [] # split_lines cs
      else (case split_lines cs of l # ls \<Rightarrow> (c # l) # ls | [] \<Rightarrow> [[c]]))"

definition trim :: "string \<Rightarrow> string" where
  "trim s = rev (dropWhile is_space (rev (dropWhile is_space s)))"

text \<open>
  \<^verbatim>\<open>parseToolCallsFromOutput\<close>: the loop over the lines, from the empty state, and what
  it returns: the clean output and the records.
\<close>

definition parse_lines :: "(string \<Rightarrow> json option) \<Rightarrow> string list \<Rightarrow> parse_state" where
  "parse_lines parse ls =
     foldl (step parse) \<lparr>toolCalls = [], toolCallMap = Map.empty, cleanLines = []\<rparr> ls"

definition parseToolCallsFromOutput ::
  "(string \<Rightarrow> json option) \<Rightarrow> string \<Rightarrow> string \<times> ToolCallRecord list" where
  "parseToolCallsFromOutput parse out =
     (let st = parse_lines parse (split_lines out)
      in (trim (join [CHR 0x0A] (cleanLines st)), toolCalls st))"

text \<open>
  Notions for stating what the parser does. A line \<open>answers\<close> a tool when it is a result or
  error marker for it, and \<open>starts\<close> it when it is a call-start marker for it whose payload
  parses. \<open>calls_of\<close> lists, in order, the tool and parsed input of the call-start markers
  that parse. A marker line is \<open>unparseable\<close> when its payload does not parse.
  \<open>new_call\<close> is the record a call-start marker creates, \<open>duration_of\<close> the
  \<^verbatim>\<open>data.durationMs || 0\<close> of a parsed payload.
\<close>

definition answers :: "string \<Rightarrow> string \<Rightarrow> bool" where
  "answers t l = (case classify l of CallResult u j \<Rightarrow> u = t | CallError u j \<Rightarrow> u = t | _ \<Rightarrow> False)"

definition starts :: "(string \<Rightarrow> json option) \<Rightarrow> string \<Rightarrow> string \<Rightarrow> bool" where
  "starts parse t l = (case classify l of CallStart u j \<Rightarrow> u = t \<and> parse j \<noteq> None | _ \<Rightarrow> False)"

definition call_of :: "(string \<Rightarrow> json option) \<Rightarrow> string \<Rightarrow> (string \<times> json) option" where
  "call_of parse l = (case classify l of CallStart t j \<Rightarrow> map_option (Pair t) (parse j) | _ \<Rightarrow> None)"

definition calls_of :: "(string \<Rightarrow> json option) \<Rightarrow> string list \<Rightarrow> (string \<times> json) list" where
  "calls_of parse ls = List.map_filter (call_of parse) ls"

definition unparseable :: "(string \<Rightarrow> json option) \<Rightarrow> string \<Rightarrow> bool" where
  "unparseable parse l =
     (case classify l of
        CallStart t j \<Rightarrow> parse j = None
      | CallResult t j \<Rightarrow> parse j = None
      | CallError t j \<Rightarrow> parse j = None
      | Plain \<Rightarrow> False)"

definition new_call :: "string \<Rightarrow> json \<Rightarrow> ToolCallRecord" where
  "new_call t v = \<lparr>call_tool = t, call_input = v, call_output = JNull, durationMs = JNum 0,
                    call_success = False, call_error = None\<rparr>"

definition duration_of :: "json \<Rightarrow> json" where
  "duration_of d = or_zero (case get_prop d ''durationMs'' of Inr x \<Rightarrow> x | Inl e \<Rightarrow> None)"

text \<open>
  Invariants of the loop: every position in the map is a position of the list; position
  \<open>k\<close> is reached from the map through the tool \<open>t\<close> at most (\<open>owned\<close>), or through no
  tool at all (\<open>unshared\<close>).
\<close>

definition valid :: "parse_state \<Rightarrow> bool" where
  "valid st = (\<forall>u i. toolCallMap st u = Some i \<longrightarrow> i < length (toolCalls st))"

definition owned :: "string \<Rightarrow> nat \<Rightarrow> parse_state \<Rightarrow> bool" where
  "owned t k st = (k < length (toolCalls st) \<and> (\<forall>u. toolCallMap st u = Some k \<longrightarrow> u = t))"


section \<open>Fixtures of the test suites\<close>

text \<open>
  The context, tools and configuration that \<^verbatim>\<open>tool-bridge-protocol.test.ts\<close> and
  \<^verbatim>\<open>tool-registry.test.ts\<close> set up, for evaluating the model at concrete inputs.
\<close>

definition testContext :: ExecutionContext where
  "testContext = \<lparr>userId = ''user-123'', sessionId = ''session-456'', organizationId = None,
                   scopes = [''read'', ''write''], metadata = None\<rparr>"

text \<open>
  The three schemas of those tools, as the schema library (version 4) parses with them.
  An object schema reports every field that fails, in the order of its shape, and returns
  the fields of its shape only. An issue is either a wrong type (what was expected,
  where, and the type received) or a number below the minimum 0; its message and the
  JSON text of the issue list, which is the message of the \<^verbatim>\<open>ZodError\<close>, follow.
\<close>

fun received :: "json \<Rightarrow> string" where
  "received JNull = ''null''"
| "received (JBool b) = ''boolean''"
| "received (JNum x) = ''number''"
| "received (JStr s) = ''string''"
| "received (JArr xs) = ''array''"
| "received (JObj kvs) = ''object''"

definition received_at :: "json option \<Rightarrow> string" where
  "received_at v = (case v of None \<Rightarrow> ''undefined'' | Some x \<Rightarrow> received x)"

datatype zod_issue =
    InvalidType string "string list" string
  | TooSmall "string list"

fun issue_of :: "zod_issue \<Rightarrow> issue" where
  "issue_of (InvalidType expected p got) =
     \<lparr>path = p, message = ''Invalid input: expected '' @ expected @ '', received '' @ got\<rparr>"
| "issue_of (TooSmall p) = \<lparr>path = p, message = ''Too small: expected number to be >=0''\<rparr>"

fun path_json :: "string list \<Rightarrow> string" where
  "path_json [] = ''[]''"
| "path_json ks =
     join [CHR 0x0A]
       ([''[''] @ [join ('','' @ [CHR 0x0A]) (map (\<lambda>k. ''      '' @ dquote k) ks)] @ [''    ]''])"

fun issue_json :: "zod_issue \<Rightarrow> string" where
  "issue_json (InvalidType expected p got) =
     join [CHR 0x0A]
       [''  {'',
        ''    \"expected\": '' @ dquote expected @ '','',
        ''    \"code\": \"invalid_type\",'',
        ''    \"path\": '' @ path_json p @ '','',
        ''    \"message\": '' @ dquote (message (issue_of (InvalidType expected p got))),
        ''  }'']"
| "issue_json (TooSmall p) =
     join [CHR 0x0A]
       [''  {'',
        ''    \"origin\": \"number\",'',
        ''    \"code\": \"too_small\",'',
        ''    \"minimum\": 0,'',
        ''    \"inclusive\": true,'',
        ''    \"path\": '' @ path_json p @ '','',
        ''    \"message\": '' @ dquote (message (issue_of (TooSmall p))),
        ''  }'']"

definition zod_error :: "zod_issue list \<Rightarrow> js_exn" where
  "zod_error zs =
     ZodError (map issue_of zs)
       (join [CHR 0x0A] [''['', join ('','' @ [CHR 0x0A]) (map issue_json zs), '']''])"

text \<open>\<^verbatim>\<open>z.object({})\<close>\<close>

fun object_schema :: zod_parse where
  "object_schema (JObj kvs) = Inr (JObj [])"
| "object_schema v = Inl (zod_error [InvalidType ''object'' [] (received v)])"

text \<open>\<^verbatim>\<open>z.object({ value: z.number() })\<close>\<close>

fun number_value_schema :: zod_parse where
  "number_value_schema (JObj kvs) =
     (case map_of kvs ''value'' of
        Some (JNum x) \<Rightarrow> Inr (JObj [(''value'', JNum x)])
      | other \<Rightarrow> Inl (zod_error [InvalidType ''number'' [''value''] (received_at other)]))"
| "number_value_schema v = Inl (zod_error [InvalidType ''object'' [] (received v)])"

text \<open>\<^verbatim>\<open>z.object({ required: z.string(), count: z.number().min(0) })\<close>\<close>

fun validateMe_schema :: zod_parse where
  "validateMe_schema (JObj kvs) =
     (let bad_required = (case map_of kvs ''required'' of
                            Some (JStr s) \<Rightarrow> []
                          | other \<Rightarrow> [InvalidType ''string'' [''required''] (received_at other)]);
          bad_count = (case map_of kvs ''count'' of
                         Some (JNum x) \<Rightarrow> if x < 0 then [TooSmall [''count'']] else []
                       | other \<Rightarrow> [InvalidType ''number'' [''count''] (received_at other)])
      in case (map_of kvs ''required'', map_of kvs ''count'') of
           (Some r, Some c) \<Rightarrow>
             if bad_required @ bad_count = [] then Inr (JObj [(''required'', r), (''count'', c)])
             else Inl (zod_error (bad_required @ bad_count))
         | _ \<Rightarrow> Inl (zod_error (bad_required @ bad_count)))"
| "validateMe_schema v = Inl (zod_error [InvalidType ''object'' [] (received v)])"

definition validateMe :: ToolDefinition where
  "validateMe = \<lparr>name = ''validateMe'', description = ''Tool with strict input'',
                  inputSchema = validateMe_schema, outputSchema = None,
                  requiredScopes = None, rateLimit = None,
                  execute = (\<lambda>v c. Inr v)\<rparr>"

definition securedTool :: ToolDefinition where
  "securedTool = \<lparr>name = ''securedTool'', description = ''A secured tool'',
                   inputSchema = object_schema, outputSchema = None,
                   requiredScopes = Some [''admin''], rateLimit = None,
                   execute = (\<lambda>v c. Inr (JObj [(''secret'', JStr ''data'')]))\<rparr>"

definition rateLimitedTool :: ToolDefinition where
  "rateLimitedTool = \<lparr>name = ''rateLimitedTool'', description = ''A rate limited tool'',
                       inputSchema = object_schema, outputSchema = None,
                       requiredScopes = None, rateLimit = Some 2,
                       execute = (\<lambda>v c. Inr (JObj [(''called'', JBool True)]))\<rparr>"

definition errorTool :: ToolDefinition where
  "errorTool = \<lparr>name = ''errorTool'', description = ''Tool that throws'',
                 inputSchema = object_schema, outputSchema = None,
                 requiredScopes = None, rateLimit = None,
                 execute = (\<lambda>v c. Inl (Error ''Something went wrong''))\<rparr>"

definition invalidOutput :: ToolDefinition where
  "invalidOutput = \<lparr>name = ''invalidOutput'', description = ''Returns invalid output'',
                     inputSchema = object_schema, outputSchema = Some number_value_schema,
                     requiredScopes = None, rateLimit = None,
                     execute = (\<lambda>v c. Inr (JObj [(''value'', JStr ''not-a-number'')]))\<rparr>"

definition testRegistry :: ToolRegistry where
  "testRegistry =
     \<lparr>tools = [''securedTool'' \<mapsto> securedTool, ''rateLimitedTool'' \<mapsto> rateLimitedTool,
               ''errorTool'' \<mapsto> errorTool, ''invalidOutput'' \<mapsto> invalidOutput,
               ''validateMe'' \<mapsto> validateMe],
      logger = True, validateOutputs = True\<rparr>"

definition defaultConfig :: ToolBridgeConfig where
  "defaultConfig =
     \<lparr>serverUrl = ''http://localhost:3000/api/trpc'',
      tokenConfig = \<lparr>secretKey = ''test-secret'', expirationSeconds = None, audience = None\<rparr>,
      enableRateLimiting = Some True, defaultRateLimit = Some 60\<rparr>"

definition testProtocol :: protocol where
  "testProtocol = \<lparr>config = Some defaultConfig, registry = Some testRegistry,
                    rateLimitStore = Map.empty\<rparr>"

text \<open>A token issued for the test context at clock 1000 under the default configuration.\<close>

definition testToken :: token where
  "testToken = createExecutionToken (tokenConfig defaultConfig) testContext 1000"

text \<open>A union of an enum, an array of dates and a literal, built by version 4.\<close>

definition statusOrDates :: zod where
  "statusOrDates =
     ZodUnion [zod4_enum [''pending'', ''active''], ZodArray (ZodOther ''date''),
               zod4_literal [LNum 42]]"

text \<open>
  \<^verbatim>\<open>JSON.parse\<close> on the payloads that \<^verbatim>\<open>code-mode.test.ts\<close> feeds the parser, for
  evaluating the model on those outputs; any other text stands for one that does not
  parse, as \<^verbatim>\<open>not-json\<close> does not.
\<close>

definition test_parse :: "string \<Rightarrow> json option" where
  "test_parse s =
     (if s = ''{}'' then Some (JObj [])
      else if s = ''{\"query\":\"test\"}'' then Some (JObj [(''query'', JStr ''test'')])
      else if s = ''{\"durationMs\":50}'' then Some (JObj [(''durationMs'', JNum 50)])
      else if s = ''{\"error\":\"Connection failed\",\"durationMs\":100}''
        then Some (JObj [(''error'', JStr ''Connection failed''), (''durationMs'', JNum 100)])
      else None)"

text \<open>
  Outputs: the one of the parsing test, the one of the malformed-marker test, one whose
  plain line is indented, and one with two calls of a tool started before any result.
\<close>

definition getData_output :: string where
  "getData_output = ''[TOOL_CALL:getData]{\"query\":\"test\"}'' @ [CHR 0x0A]
                    @ ''[TOOL_RESULT:getData]{\"durationMs\":50}'' @ [CHR 0x0A]
                    @ ''Result: test data''"

definition badTool_output :: string where
  "badTool_output = ''[TOOL_CALL:badTool]not-json'' @ [CHR 0x0A] @ ''Regular output''"

definition indented_output :: string where
  "indented_output = ''[TOOL_CALL:x]not-json'' @ [CHR 0x0A] @ ''  indented''"

definition concurrent_output :: string where
  "concurrent_output = ''[TOOL_CALL:getData]{}'' @ [CHR 0x0A]
                       @ ''[TOOL_CALL:getData]{\"query\":\"test\"}'' @ [CHR 0x0A]
                       @ ''[TOOL_RESULT:getData]{\"durationMs\":50}'' @ [CHR 0x0A]
                       @ ''done''"

section \<open>Properties of authorization\<close>


lemma trpc_authorize_iff:
  "trpc_authorize (Some R) ctx \<longleftrightarrow>
     ''*'' \<in> set R \<or> (R \<noteq> [] \<and> ''*'' \<in> set (scopes ctx)) \<or> set (scopes ctx) \<inter> set R \<noteq> {}"
  by (cases R) (auto simp: trpc_authorize_def trpc_scopes_def requireScopes_def Let_def list_ex_iff)

lemma trpc_authorize_absent: "trpc_authorize None ctx"
  by (simp add: trpc_authorize_def trpc_scopes_def requireScopes_def)

text \<open>
  C1. Authorization succeeds iff the required set is empty, or holds the wildcard, or the
  context holds the wildcard, or the two sets meet, on both paths. The base protocol's
  \<open>checkAuthorization\<close> does so (\<open>checkAuthorization_iff\<close>). The tRPC middleware does not:
  a tool registered with the empty list \<^verbatim>\<open>requiredScopes: []\<close> keeps the empty list
  (only an absent list becomes the wildcard), \<^verbatim>\<open>[].some(...)\<close> is false, and every call is
  refused with \<^verbatim>\<open>FORBIDDEN\<close>, also for a context that holds the wildcard.
\<close>

theorem trpc_empty_scopes_forbidden:
  "requireScopes (trpc_scopes (Some []))
       (Some \<lparr>userId = ''u1'', sessionId = ''s1'', organizationId = None,
              scopes = [''read'', ''*''], metadata = None\<rparr>)
     = Inl (FORBIDDEN ''Missing required scope. Required: '')
   \<and> checkAuthorization
         \<lparr>userId = ''u1'', sessionId = ''s1'', organizationId = None,
          scopes = [''read'', ''*''], metadata = None\<rparr> []"
  by (simp add: requireScopes_def trpc_scopes_def checkAuthorization_def)

section \<open>Properties of the rate limiter\<close>

lemma checkRateLimit_fresh:
  assumes "case store (''rate:'' @ u) of None \<Rightarrow> True | Some e \<Rightarrow> now > resetTime e"
  shows "checkRateLimit store now u n =
           (\<lparr>allowed = True, remaining = n - 1, resetIn = 60\<rparr>,
            store(''rate:'' @ u \<mapsto> \<lparr>count = 1, resetTime = now + 60000\<rparr>))"
  using assms by (auto simp: checkRateLimit_def Let_def split: option.splits)

lemma checkRateLimit_within:
  assumes "store (''rate:'' @ u) = Some \<lparr>count = c, resetTime = r\<rparr>" "now \<le> r" "c < n"
  shows "checkRateLimit store now u n =
           (\<lparr>allowed = True, remaining = n - (c + 1),
              resetIn = \<lceil>real_of_int (r - now) / 1000\<rceil>\<rparr>,
            store(''rate:'' @ u \<mapsto> \<lparr>count = c + 1, resetTime = r\<rparr>))"
  using assms by (auto simp: checkRateLimit_def Let_def)

lemma checkRateLimit_exceeded:
  assumes "store (''rate:'' @ u) = Some \<lparr>count = c, resetTime = r\<rparr>" "now \<le> r" "n \<le> c"
  shows "checkRateLimit store now u n =
           (\<lparr>allowed = False, remaining = 0,
              resetIn = \<lceil>real_of_int (r - now) / 1000\<rceil>\<rparr>, store)"
  using assms by (auto simp: checkRateLimit_def Let_def)

lemma seq_in_window:
  assumes "store (''rate:'' @ u) = Some \<lparr>count = c, resetTime = r\<rparr>" "list_all (\<lambda>t. t \<le> r) ts"
  shows "fst (checkRateLimit_seq store u n ts) = map (\<lambda>(k, t). in_window n r c k t) (enumerate 0 ts)
       \<and> snd (checkRateLimit_seq store u n ts) (''rate:'' @ u)
           = Some \<lparr>count = (if c < n then min n (c + int (length ts)) else c), resetTime = r\<rparr>"
  using assms
proof (induction ts arbitrary: store c)
  case Nil
  then show ?case by simp
next
  case (Cons t ts)
  show ?case
  proof (cases "c < n")
    case True
    have step: "checkRateLimit store t u n =
           (\<lparr>allowed = True, remaining = n - (c + 1),
              resetIn = \<lceil>real_of_int (r - t) / 1000\<rceil>\<rparr>,
            store(''rate:'' @ u \<mapsto> \<lparr>count = c + 1, resetTime = r\<rparr>))"
      using Cons.prems True by (intro checkRateLimit_within) auto
    have ih: "fst (checkRateLimit_seq (store(''rate:'' @ u \<mapsto> \<lparr>count = c + 1, resetTime = r\<rparr>)) u n ts)
            = map (\<lambda>(k, t). in_window n r (c + 1) k t) (enumerate 0 ts)
       \<and> snd (checkRateLimit_seq (store(''rate:'' @ u \<mapsto> \<lparr>count = c + 1, resetTime = r\<rparr>)) u n ts) (''rate:'' @ u)
           = Some \<lparr>count = (if c + 1 < n then min n (c + 1 + int (length ts)) else c + 1), resetTime = r\<rparr>"
      using Cons.prems by (intro Cons.IH) auto
    have shift: "map (\<lambda>(k, t). in_window n r c k t) (enumerate (Suc 0) ts)
               = map (\<lambda>(k, t). in_window n r (c + 1) k t) (enumerate 0 ts)"
      by (simp add: enumerate_Suc_eq in_window_def split_def comp_def add.assoc)
    show ?thesis using True ih shift
      by (auto simp: step split_def in_window_def)
  next
    case False
    have step: "checkRateLimit store t u n =
           (\<lparr>allowed = False, remaining = 0,
              resetIn = \<lceil>real_of_int (r - t) / 1000\<rceil>\<rparr>, store)"
      using Cons.prems False by (intro checkRateLimit_exceeded) auto
    have ih: "fst (checkRateLimit_seq store u n ts)
            = map (\<lambda>(k, t). in_window n r c k t) (enumerate 0 ts)
       \<and> snd (checkRateLimit_seq store u n ts) (''rate:'' @ u)
           = Some \<lparr>count = (if c < n then min n (c + int (length ts)) else c), resetTime = r\<rparr>"
      using Cons.prems by (intro Cons.IH) auto
    have shift: "map (\<lambda>(k, t). in_window n r c k t) (enumerate (Suc 0) ts)
               = map (\<lambda>(k, t). in_window n r c k t) (enumerate 0 ts)"
      using False by (simp add: enumerate_Suc_eq in_window_def split_def comp_def)
    show ?thesis using False ih shift
      by (auto simp: step split_def in_window_def)
  qed
qed

lemma ceil_ms_pos: "(0 < \<lceil>real_of_int x / 1000\<rceil>) = (0 < x)"
  by (simp add: ceiling_less_iff less_ceiling_iff)

lemma ceil_ms_nonneg: "0 \<le> x \<Longrightarrow> 0 \<le> \<lceil>real_of_int x / 1000\<rceil>"
  by (simp add: le_ceiling_iff)  

text \<open>
  What the limiter does for a limit \<open>n \<ge> 1\<close>. A call at \<open>t0\<close> that finds no entry for the
  user, or one whose reset time has passed, is allowed and starts a window that ends at
  \<open>t0 + 60000\<close>. Of the calls that follow up to and including that instant, call number
  \<open>k\<close> of the window is allowed with \<open>remaining = n - k\<close> while \<open>k \<le> n\<close> and denied with
  \<open>remaining = 0\<close> afterwards; \<open>resetIn\<close> is the rounded-up number of seconds to the end of
  the window, positive exactly when the call is strictly before it. A call after the
  reset time is allowed again, with \<open>remaining = n - 1\<close> and a new window of 60 seconds.
\<close>

lemma checkRateLimit_window:
  assumes fresh: "case store (''rate:'' @ u) of None \<Rightarrow> True | Some e \<Rightarrow> resetTime e < t0"
    and n1: "1 \<le> n"
    and win: "list_all (\<lambda>t. t \<le> t0 + 60000) ts"
  shows "fst (checkRateLimit_seq store u n (t0 # ts))
           = \<lparr>allowed = True, remaining = n - 1, resetIn = 60\<rparr>
             # map (\<lambda>(k, t). window_call n (t0 + 60000) k t) (enumerate 1 ts)
       \<and> list_all (\<lambda>(k, t). (0 < resetIn (window_call n (t0 + 60000) k t)) = (t < t0 + 60000))
            (enumerate 1 ts)
       \<and> (\<forall>t'. t0 + 60000 < t' \<longrightarrow>
             checkRateLimit (snd (checkRateLimit_seq store u n (t0 # ts))) t' u n
               = (\<lparr>allowed = True, remaining = n - 1, resetIn = 60\<rparr>,
                  (snd (checkRateLimit_seq store u n (t0 # ts)))
                    (''rate:'' @ u \<mapsto> \<lparr>count = 1, resetTime = t' + 60000\<rparr>)))"
proof -
  let ?key = "''rate:'' @ u"
  let ?s1 = "store(?key \<mapsto> \<lparr>count = 1, resetTime = t0 + 60000\<rparr>)"
  have first: "checkRateLimit store t0 u n = (\<lparr>allowed = True, remaining = n - 1, resetIn = 60\<rparr>, ?s1)"
    using fresh by (intro checkRateLimit_fresh) simp
  have rest: "fst (checkRateLimit_seq ?s1 u n ts)
                = map (\<lambda>(k, t). in_window n (t0 + 60000) 1 k t) (enumerate 0 ts)
       \<and> snd (checkRateLimit_seq ?s1 u n ts) ?key
           = Some \<lparr>count = (if 1 < n then min n (1 + int (length ts)) else 1), resetTime = t0 + 60000\<rparr>"
    using win by (intro seq_in_window) auto
  have shift: "map (\<lambda>(k, t). in_window n (t0 + 60000) 1 k t) (enumerate 0 ts)
             = map (\<lambda>(k, t). window_call n (t0 + 60000) k t) (enumerate 1 ts)"
    by (simp add: enumerate_Suc_eq in_window_def window_call_def split_def comp_def algebra_simps)
  have A: "fst (checkRateLimit_seq store u n (t0 # ts))
           = \<lparr>allowed = True, remaining = n - 1, resetIn = 60\<rparr>
             # map (\<lambda>(k, t). window_call n (t0 + 60000) k t) (enumerate 1 ts)"
    using rest shift by (simp add: first split_def Let_def)
  have B: "list_all (\<lambda>(k, t). (0 < resetIn (window_call n (t0 + 60000) k t)) = (t < t0 + 60000))
            (enumerate 1 ts)"
    by (auto simp: list_all_iff window_call_def ceil_ms_pos)
  have fin: "snd (checkRateLimit_seq store u n (t0 # ts)) = snd (checkRateLimit_seq ?s1 u n ts)"
    by (simp add: first split_def Let_def)
  have C: "checkRateLimit (snd (checkRateLimit_seq store u n (t0 # ts))) t' u n
               = (\<lparr>allowed = True, remaining = n - 1, resetIn = 60\<rparr>,
                  (snd (checkRateLimit_seq store u n (t0 # ts)))
                    (?key \<mapsto> \<lparr>count = 1, resetTime = t' + 60000\<rparr>))" if "t0 + 60000 < t'" for t'
    using rest that unfolding fin by (intro checkRateLimit_fresh) simp
  show ?thesis using A B C by blast
qed

lemma checkRateLimit_window_example:
  "fst (checkRateLimit_seq Map.empty ''alice'' 2 [1000, 2000, 3500, 61000])
     = [\<lparr>allowed = True, remaining = 1, resetIn = 60\<rparr>,
        \<lparr>allowed = True, remaining = 0, resetIn = 59\<rparr>,
        \<lparr>allowed = False, remaining = 0, resetIn = 58\<rparr>,
        \<lparr>allowed = False, remaining = 0, resetIn = 0\<rparr>]
   \<and> fst (checkRateLimit (snd (checkRateLimit_seq Map.empty ''alice'' 2 [1000, 2000, 3500, 61000]))
            61001 ''alice'' 2)
     = \<lparr>allowed = True, remaining = 1, resetIn = 60\<rparr>"
  using checkRateLimit_window [where store = Map.empty and u = "''alice''" and ?t0.0 = 1000 and n = 2
      and ts = "[2000, 3500, 61000]"]
  by (simp add: window_call_def enumerate_eq_zip upt_rec)

text \<open>
  C5. The claim: under a limit \<open>n\<close> the first \<open>n\<close> calls of a window are allowed, the
  \<open>k\<close>-th with \<open>remaining = n - k\<close>, and call \<open>n + 1\<close> of the window is denied with
  \<open>remaining = 0\<close> and a positive \<open>resetIn\<close>. The limiter breaks it at two inputs. The
  window test is \<^verbatim>\<open>now > entry.resetTime\<close>, so a call made exactly at the reset time still
  belongs to the old window: under the limit 1, after a call at 0, the call at 60000 is
  denied with \<open>resetIn = 0\<close>, and dispatch answers \<^verbatim>\<open>Try again in 0 seconds\<close>, where the test
  of the repository expects \<^verbatim>\<open>resetIn\<close> greater than 0 of a denied call. And the branch that
  opens a window never compares the count with the limit: under the limit 0 the first
  call is allowed, with \<open>remaining = -1\<close>, and reaches the executor.
\<close>

theorem checkRateLimit_boundary_defects:
  "fst (checkRateLimit_seq Map.empty ''user-123'' 1 [0, 60000])
     = [\<lparr>allowed = True, remaining = 0, resetIn = 60\<rparr>,
        \<lparr>allowed = False, remaining = 0, resetIn = 0\<rparr>]
   \<and> fst (checkRateLimit_seq Map.empty ''user-123'' 3 [0, 0, 0, 60000])
     = [\<lparr>allowed = True, remaining = 2, resetIn = 60\<rparr>,
        \<lparr>allowed = True, remaining = 1, resetIn = 60\<rparr>,
        \<lparr>allowed = True, remaining = 0, resetIn = 60\<rparr>,
        \<lparr>allowed = False, remaining = 0, resetIn = 0\<rparr>]
   \<and> error (fst (executeToolWithChecks
                   (testProtocol\<lparr>rateLimitStore :=
                      snd (checkRateLimit_seq Map.empty ''user-123'' 2 [0, 0])\<rparr>)
                   60000 60000 60000 ''rateLimitedTool'' (JObj []) testContext))
     = Some (''RATE_LIMITED'', ''Rate limit exceeded. Try again in 0 seconds'')
   \<and> fst (checkRateLimit_seq Map.empty ''user-123'' 0 [0])
     = [\<lparr>allowed = True, remaining = - 1, resetIn = 60\<rparr>]
   \<and> executeToolWithChecks
         (testProtocol\<lparr>registry :=
            Some (testRegistry\<lparr>tools := [''rateLimitedTool'' \<mapsto> rateLimitedTool\<lparr>rateLimit := Some 0\<rparr>]\<rparr>)\<rparr>)
         0 0 0 ''rateLimitedTool'' (JObj []) testContext
     = (\<lparr>success = True, result = Some (JObj [(''called'', JBool True)]), error = None,
         executionTimeMs = 0\<rparr>,
        testProtocol\<lparr>registry :=
            Some (testRegistry\<lparr>tools := [''rateLimitedTool'' \<mapsto> rateLimitedTool\<lparr>rateLimit := Some 0\<rparr>]\<rparr>),
          rateLimitStore := [''rate:user-123'' \<mapsto> \<lparr>count = 1, resetTime = 60000\<rparr>]\<rparr>,
        \<lparr>executed = [(JObj [], testContext)], logged = []\<rparr>)"
proof -
  have zero: "number_text 0 = ''0''"
    by code_simp
  show ?thesis
    by (simp add: zero testProtocol_def testRegistry_def testContext_def defaultConfig_def
          rateLimitedTool_def executeToolWithChecks_def required_of_def checkAuthorization_def
          limiting_def limit_for_def checkRateLimit_def Let_def execute_caught_def
          executeTool_def failure_def)
qed

section \<open>Properties of the registry and of dispatch\<close>







lemma execute_caught_fst:
  "fst (execute_caught reg ms nm inp ctx) =
     (case fst (executeTool reg nm inp ctx) of
        Inr res \<Rightarrow> \<lparr>success = True, result = Some res, error = None, executionTimeMs = ms\<rparr>
      | Inl e \<Rightarrow> failure ''EXECUTION_ERROR'' (exn_message e) ms)"
  by (simp add: execute_caught_def split: prod.splits sum.splits)



lemma checkRateLimit_allowed_store:
  "allowed (fst (checkRateLimit store now u n)) \<Longrightarrow>
     snd (checkRateLimit store now u n) = consume_slot store now u"
  by (auto simp: checkRateLimit_def consume_slot_def Let_def split: option.splits if_splits)

lemma execute_caught_code:
  "error_code (fst (execute_caught reg ms nm inp ctx)) \<in> {None, Some ''EXECUTION_ERROR''}"
  by (simp add: execute_caught_def error_code_def failure_def split: prod.splits sum.splits)

text \<open>
  C10. A dispatch that ends in \<^verbatim>\<open>NOT_INITIALIZED\<close>, \<^verbatim>\<open>NOT_FOUND\<close> or \<^verbatim>\<open>FORBIDDEN\<close> leaves
  the protocol, and with it the rate-limit store, as it was. A dispatch that passes these
  checks with rate limiting on and is allowed by the limiter counts the call once for
  the user (\<open>consume_slot\<close>), whether the executor then returns or throws: a call that
  ends in \<^verbatim>\<open>EXECUTION_ERROR\<close> has used its slot.
\<close>

theorem dispatch_rate_store_frame:
  "(error_code (fst (executeToolWithChecks p startTime rateNow endTime nm inp ctx))
        \<in> {Some ''NOT_INITIALIZED'', Some ''NOT_FOUND'', Some ''FORBIDDEN''}
      \<longrightarrow> fst (snd (executeToolWithChecks p startTime rateNow endTime nm inp ctx)) = p)
   \<and> (\<forall>reg tool.
         registry p = Some reg \<and> tools reg nm = Some tool
         \<and> checkAuthorization ctx (required_of tool) \<and> limiting p
         \<and> allowed (fst (checkRateLimit (rateLimitStore p) rateNow (userId ctx) (limit_for p tool)))
       \<longrightarrow> fst (snd (executeToolWithChecks p startTime rateNow endTime nm inp ctx))
             = p\<lparr>rateLimitStore := consume_slot (rateLimitStore p) rateNow (userId ctx)\<rparr>
           \<and> error_code (fst (executeToolWithChecks p startTime rateNow endTime nm inp ctx))
               = (case fst (executeTool reg nm inp ctx) of
                    Inl e \<Rightarrow> Some ''EXECUTION_ERROR'' | Inr v \<Rightarrow> None))"
proof (intro conjI impI allI)
  assume c: "error_code (fst (executeToolWithChecks p startTime rateNow endTime nm inp ctx))
        \<in> {Some ''NOT_INITIALIZED'', Some ''NOT_FOUND'', Some ''FORBIDDEN''}"
  show "fst (snd (executeToolWithChecks p startTime rateNow endTime nm inp ctx)) = p"
  proof (cases "registry p")
    case None
    then show ?thesis by (simp add: executeToolWithChecks_def)
  next
    case (Some reg)
    show ?thesis
    proof (cases "tools reg nm")
      case None
      then show ?thesis using Some by (simp add: executeToolWithChecks_def)
    next
      case (Some tool)
      show ?thesis
      proof (cases "checkAuthorization ctx (required_of tool)")
        case False
        then show ?thesis using Some \<open>registry p = Some reg\<close>
          by (simp add: executeToolWithChecks_def required_of_def)
      next
        case True
        have "error_code (fst (executeToolWithChecks p startTime rateNow endTime nm inp ctx))
                \<in> {None, Some ''EXECUTION_ERROR'', Some ''RATE_LIMITED''}"
          using True Some \<open>registry p = Some reg\<close>
            execute_caught_code [of reg "endTime - startTime" nm inp ctx]
          by (auto simp: executeToolWithChecks_def required_of_def Let_def split_def
                error_code_def failure_def)
        with c show ?thesis by auto
      qed
    qed
  qed
next
  fix reg tool
  assume a: "registry p = Some reg \<and> tools reg nm = Some tool
         \<and> checkAuthorization ctx (required_of tool) \<and> limiting p
         \<and> allowed (fst (checkRateLimit (rateLimitStore p) rateNow (userId ctx) (limit_for p tool)))"
  then show "fst (snd (executeToolWithChecks p startTime rateNow endTime nm inp ctx))
             = p\<lparr>rateLimitStore := consume_slot (rateLimitStore p) rateNow (userId ctx)\<rparr>"
    by (simp add: executeToolWithChecks_def required_of_def Let_def split_def
          checkRateLimit_allowed_store)
  from a show "error_code (fst (executeToolWithChecks p startTime rateNow endTime nm inp ctx))
               = (case fst (executeTool reg nm inp ctx) of
                    Inl e \<Rightarrow> Some ''EXECUTION_ERROR'' | Inr v \<Rightarrow> None)"
    by (simp add: executeToolWithChecks_def required_of_def Let_def split_def
          execute_caught_def error_code_def failure_def split: prod.splits sum.splits)
qed

theorem dispatch_rate_store_frame_witness:
  "fst (snd (executeToolWithChecks testProtocol 5 7 9 ''unknownTool'' (JObj []) testContext))
     = testProtocol
   \<and> fst (snd (executeToolWithChecks testProtocol 5 7 9 ''securedTool'' (JObj []) testContext))
     = testProtocol
   \<and> fst (snd (executeToolWithChecks testProtocol 5 7 9 ''errorTool'' (JObj []) testContext))
     = testProtocol\<lparr>rateLimitStore := [''rate:user-123'' \<mapsto> \<lparr>count = 1, resetTime = 60007\<rparr>]\<rparr>
   \<and> error_code (fst (executeToolWithChecks testProtocol 5 7 9 ''errorTool'' (JObj []) testContext))
     = Some ''EXECUTION_ERROR''"
  using dispatch_rate_store_frame [of testProtocol 5 7 9 "''unknownTool''" "JObj []" testContext]
    dispatch_rate_store_frame [of testProtocol 5 7 9 "''securedTool''" "JObj []" testContext]
    dispatch_rate_store_frame [of testProtocol 5 7 9 "''errorTool''" "JObj []" testContext]
  by (simp add: testProtocol_def testRegistry_def testContext_def defaultConfig_def
        errorTool_def securedTool_def executeToolWithChecks_def required_of_def
        checkAuthorization_def limiting_def limit_for_def checkRateLimit_def Let_def
        execute_caught_def executeTool_def error_code_def failure_def consume_slot_def)

section \<open>Properties of execution tokens\<close>

text \<open>
  C2 (as amended). A token issued for a context under a configuration, verified under
  the same configuration, gives back the context (user, session, organization, scopes
  and metadata) exactly while the whole second of the verification is before the whole
  second of the issue plus \<open>expirationSeconds\<close> (300 when unset), and \<^verbatim>\<open>null\<close> from that
  second on. The token carries \<^verbatim>\<open>iat\<close> and \<^verbatim>\<open>exp\<close> in whole seconds, so the fraction of
  the second at which it was issued is lost.
\<close>

theorem token_round_trip:
  "verifyExecutionToken jwtVerify cfg (createExecutionToken cfg ctx t0) t
     = (if t div 1000 < t0 div 1000 + int (case expirationSeconds cfg of None \<Rightarrow> 300 | Some s \<Rightarrow> s)
        then Some ctx else None)"
  by (simp add: verifyExecutionToken_def createExecutionToken_def signJWT_def jwtVerify_def
        Let_def not_less)

text \<open>
  On the clock itself the lifetime can be almost a second shorter than
  \<open>expirationSeconds\<close>: a token issued at 1999 ms with the default 300 s is refused at
  301000 ms, which is 299.001 s after the issue, and a token of one second issued at
  999 ms is refused one millisecond later.
\<close>

theorem token_expires_early_counterexample:
  "verifyExecutionToken jwtVerify (tokenConfig defaultConfig)
       (createExecutionToken (tokenConfig defaultConfig) testContext 1999) 301000 = None
   \<and> expirationSeconds (tokenConfig defaultConfig) = None
   \<and> (301000 :: int) < 1999 + 300 * 1000
   \<and> verifyExecutionToken jwtVerify (tokenConfig defaultConfig)
       (createExecutionToken (tokenConfig defaultConfig) testContext 1999) 300999
     = Some testContext
   \<and> verifyExecutionToken jwtVerify ((tokenConfig defaultConfig)\<lparr>expirationSeconds := Some 1\<rparr>)
       (createExecutionToken ((tokenConfig defaultConfig)\<lparr>expirationSeconds := Some 1\<rparr>)
          testContext 999) 1000 = None
   \<and> (1000 :: int) < 999 + 1 * 1000"
  by (simp add: verifyExecutionToken_def createExecutionToken_def signJWT_def jwtVerify_def
        defaultConfig_def testContext_def Let_def)

text \<open>
  C3. Verification never throws: whatever the library call throws (a malformed token, a
  bad signature, a wrong audience, an expired token, or anything else), both
  \<open>verifyExecutionToken\<close> functions return \<^verbatim>\<open>null\<close>, the same value for every reason; the
  tRPC protocol also returns \<^verbatim>\<open>null\<close> before it is initialized.
\<close>

theorem verify_failure_is_null:
  "(\<forall>e. verify now tok (secretKey cfg)
            (case audience cfg of None \<Rightarrow> ''tool-bridge'' | Some a \<Rightarrow> a) = Inl e
        \<longrightarrow> verifyExecutionToken verify cfg tok now = None)
   \<and> (\<forall>c e. config p = Some c
            \<and> verify now tok (secretKey (tokenConfig c))
                 (case audience (tokenConfig c) of None \<Rightarrow> ''tool-bridge-trpc'' | Some a \<Rightarrow> a) = Inl e
        \<longrightarrow> trpc_verifyExecutionToken verify p tok now = None)
   \<and> (config p = None \<longrightarrow> trpc_verifyExecutionToken verify p tok now = None)"
  by (simp add: verifyExecutionToken_def trpc_verifyExecutionToken_def Let_def)

theorem verify_failure_is_null_witness:
  "verifyExecutionToken jwtVerify (tokenConfig defaultConfig) (Garbage ''not.a.jwt'') 2000 = None
   \<and> verifyExecutionToken jwtVerify
         ((tokenConfig defaultConfig)\<lparr>secretKey := ''other-secret''\<rparr>) testToken 2000 = None
   \<and> verifyExecutionToken jwtVerify
         ((tokenConfig defaultConfig)\<lparr>audience := Some ''elsewhere''\<rparr>) testToken 2000 = None
   \<and> verifyExecutionToken jwtVerify (tokenConfig defaultConfig) testToken 301000 = None
   \<and> trpc_verifyExecutionToken jwtVerify testProtocol testToken 2000 = None
   \<and> trpc_verifyExecutionToken jwtVerify (testProtocol\<lparr>config := None\<rparr>) testToken 2000 = None"
  using verify_failure_is_null [of jwtVerify 2000 "Garbage ''not.a.jwt''" "tokenConfig defaultConfig" testProtocol]
    verify_failure_is_null [of jwtVerify 2000 testToken
       "(tokenConfig defaultConfig)\<lparr>secretKey := ''other-secret''\<rparr>" "testProtocol\<lparr>config := None\<rparr>"]
    verify_failure_is_null [of jwtVerify 2000 testToken
       "(tokenConfig defaultConfig)\<lparr>audience := Some ''elsewhere''\<rparr>" testProtocol]
    verify_failure_is_null [of jwtVerify 301000 testToken "tokenConfig defaultConfig" testProtocol]
  by (simp add: jwtVerify_def testToken_def createExecutionToken_def signJWT_def
        defaultConfig_def testProtocol_def testContext_def)

section \<open>Properties of the schema adapter\<close>

lemma unguarded_total:
  shows "zod4_shaped s \<Longrightarrow> \<exists>str. zodToTypeString_unguarded s nm = Inr str"
    and "zod4_shaped_all ss \<Longrightarrow> \<exists>strs. union_members_unguarded ss nm' i = Inr strs"
proof (induction s nm and ss nm' i rule: zodToTypeString_unguarded_union_members_unguarded.induct)
  case (5 element typeName)
  then obtain str where "zodToTypeString_unguarded element ''Element'' = Inr str" by auto
  then show ?case by simp
next
  case (6 inner typeName)
  then obtain str where "zodToTypeString_unguarded inner typeName = Inr str" by auto
  then show ?case by simp
next
  case (7 inner typeName)
  then obtain str where "zodToTypeString_unguarded inner typeName = Inr str" by auto
  then show ?case by simp
next
  case (9 zodDef legacyDef typeName)
  then show ?case by (simp split: option.splits enum_def.splits)
next
  case (10 zodDef legacyDef getter typeName)
  then show ?case by (auto simp: Let_def split: option.splits literal_def.splits list.splits)
next
  case (11 options typeName)
  then obtain strs where "union_members_unguarded options typeName 0 = Inr strs" by auto
  then show ?case by simp
next
  case (15 t ts typeName i)
  from 15 obtain s where s: "zodToTypeString_unguarded t (typeName @ decimal i) = Inr s" by auto
  from 15 s obtain rest where "union_members_unguarded ts typeName (Suc i) = Inr rest" by auto
  with s show ?case by simp
qed simp_all

text \<open>
  What holds of the two copies. In both a schema of a class the generator does not
  recognize renders as the supplied name. The guarded copy returns a string on every
  schema. The unguarded copy returns a type string for every schema whose enums carry
  \<^verbatim>\<open>_def.entries\<close> and whose literals carry \<^verbatim>\<open>_def\<close> with a first value that is not nullish.
\<close>

lemma type_string_total:
  "zodToTypeString (ZodOther kind) nm = nm
   \<and> zodToTypeString (ZodDefault inner) nm = nm
   \<and> zodToTypeString_unguarded (ZodOther kind) nm = Inr nm
   \<and> zodToTypeString_unguarded (ZodDefault inner) nm = Inr nm
   \<and> (zod4_shaped s \<longrightarrow> (\<exists>str. zodToTypeString_unguarded s nm = Inr str))"
proof -
  have "zod4_shaped s \<longrightarrow> (\<exists>str. zodToTypeString_unguarded s nm = Inr str)"
    by (rule impI) (rule unguarded_total(1))
  then show ?thesis by simp
qed

lemma type_string_total_example:
  "zod4_shaped statusOrDates
   \<and> zodToTypeString_unguarded statusOrDates ''T''
       = Inr (dquote ''pending'' @ '' | '' @ dquote ''active'' @ '' | Element[] | 42'')
   \<and> zodToTypeString statusOrDates ''T''
       = dquote ''pending'' @ '' | '' @ dquote ''active'' @ '' | Element[] | 42''"
proof -
  have n42: "number_text 42 = ''42''"
    by code_simp
  show ?thesis
    by (simp add: statusOrDates_def zod4_enum_def zod4_literal_def getZod4Def_def n42 dquote_def)
qed

text \<open>
  C8. The claim: generation never throws, in either copy of the adapter. The unguarded
  copy throws on schemas that the guarded copy renders. For the literal
  \<^verbatim>\<open>z.literal([null, "a"])\<close> of version 4 its \<^verbatim>\<open>def.values?.[0] ?? literalSchema.value\<close> finds
  the first value nullish and reads the getter, which throws for a literal of several
  values; the guarded copy maps over \<^verbatim>\<open>values\<close> and answers \<^verbatim>\<open>null | "a"\<close>. For an enum whose
  definition has no \<^verbatim>\<open>entries\<close> (the enum of version 3) its \<^verbatim>\<open>Object.values\<close> throws a
  \<^verbatim>\<open>TypeError\<close>; the guarded copy takes its fallback and answers \<^verbatim>\<open>string\<close>. The error leaves
  through every enclosing schema, here an optional one and a union.
\<close>

theorem unguarded_copy_throws:
  "zodToTypeString_unguarded (zod4_literal [LNull, LStr ''a'']) ''T''
     = Inl (Error (''This schema has multiple valid values. Use '' @ [CHR 0x60] @ ''.values''
                     @ [CHR 0x60] @ '' instead.''))
   \<and> zodToTypeString (zod4_literal [LNull, LStr ''a'']) ''T''
     = ''null | '' @ [CHR 0x22] @ ''a'' @ [CHR 0x22]
   \<and> zodToTypeString_unguarded (ZodOptional (zod4_literal [LUndefined, LNum 1])) ''T''
     = Inl (Error (''This schema has multiple valid values. Use '' @ [CHR 0x60] @ ''.values''
                     @ [CHR 0x60] @ '' instead.''))
   \<and> zodToTypeString_unguarded zod3_enum ''Status''
     = Inl (Error ''Cannot convert undefined or null to object'')
   \<and> zodToTypeString zod3_enum ''Status'' = ''string''
   \<and> zodToTypeString_unguarded (ZodUnion [ZodString, zod3_enum]) ''Status''
     = Inl (Error ''Cannot convert undefined or null to object'')
   \<and> zodToTypeString_unguarded (zod4_literal [LNull]) ''T'' = Inr ''null''
   \<and> zodToTypeString_unguarded (zod4_literal [LStr ''a'', LNull]) ''T''
     = Inr ([CHR 0x22] @ ''a'' @ [CHR 0x22])"
  by (simp add: zod4_literal_def zod3_enum_def getZod4Def_def dquote_def)

section \<open>Properties of trace reconstruction\<close>

lemma update_call_simps:
  "toolCallMap (update_call st i f) = toolCallMap st"
  "cleanLines (update_call st i f) = cleanLines st"
  "length (toolCalls (update_call st i f)) = length (toolCalls st)"
  "toolCalls (update_call st i f) ! k
     = (if i = k \<and> i < length (toolCalls st) then f (toolCalls st ! k) else toolCalls st ! k)"
  by (simp_all add: update_call_def)

lemma update_call_keys:
  assumes "\<And>r. call_tool (f r) = call_tool r" "\<And>r. call_input (f r) = call_input r"
  shows "map (\<lambda>r. (call_tool r, call_input r)) (toolCalls (update_call st i f))
           = map (\<lambda>r. (call_tool r, call_input r)) (toolCalls st)"
  by (simp add: update_call_def map_update assms list_update_same_conv)

lemma step_cases [case_names start update skip plain]:
  obtains
    (start) t j v where "classify l = CallStart t j" "parse j = Some v"
      "step parse st l = st\<lparr>toolCalls := toolCalls st @ [new_call t v],
                              toolCallMap := (toolCallMap st)(t \<mapsto> length (toolCalls st))\<rparr>"
  | (update) u i f where "answers u l" "toolCallMap st u = Some i"
      "step parse st l = update_call st i f"
      "\<And>r. call_tool (f r) = call_tool r" "\<And>r. call_input (f r) = call_input r"
  | (skip) "classify l \<noteq> Plain" "call_of parse l = None" "step parse st l = st"
  | (plain) "classify l = Plain" "step parse st l = st\<lparr>cleanLines := cleanLines st @ [l]\<rparr>"
proof (cases "classify l")
  case (CallStart t j)
  show ?thesis
  proof (cases "parse j")
    case None
    with CallStart show ?thesis by (intro skip) (simp_all add: step_def call_of_def)
  next
    case (Some v)
    with CallStart show ?thesis by (intro start [of t j v]) (simp_all add: step_def new_call_def)
  qed
next
  case (CallResult u j)
  show ?thesis
  proof (cases "parse j")
    case None
    with CallResult show ?thesis by (intro skip) (simp_all add: step_def call_of_def)
  next
    case (Some d)
    show ?thesis
    proof (cases "toolCallMap st u")
      case None
      with CallResult Some show ?thesis by (intro skip) (simp_all add: step_def call_of_def)
    next
      case (Some i)
      show ?thesis
      proof (cases "get_prop d ''durationMs''")
        case (Inl e)
        with CallResult \<open>parse j = Some d\<close> Some show ?thesis
          by (intro skip) (simp_all add: step_def call_of_def)
      next
        case (Inr x)
        with CallResult \<open>parse j = Some d\<close> Some show ?thesis
          by (intro update [of u i "\<lambda>r. r\<lparr>durationMs := or_zero x, call_success := True\<rparr>"])
             (simp_all add: step_def answers_def)
      qed
    qed
  qed
next
  case (CallError u j)
  show ?thesis
  proof (cases "parse j")
    case None
    with CallError show ?thesis by (intro skip) (simp_all add: step_def call_of_def)
  next
    case (Some d)
    show ?thesis
    proof (cases "toolCallMap st u")
      case None
      with CallError Some show ?thesis by (intro skip) (simp_all add: step_def call_of_def)
    next
      case (Some i)
      show ?thesis
      proof (cases "get_prop d ''durationMs''")
        case (Inl e)
        with CallError \<open>parse j = Some d\<close> Some show ?thesis
          by (intro skip) (simp_all add: step_def call_of_def)
      next
        case (Inr x)
        with CallError \<open>parse j = Some d\<close> Some show ?thesis
          by (intro update [of u i "\<lambda>r. r\<lparr>durationMs := or_zero x, call_success := False,
                 call_error := (case get_prop d ''error'' of Inr x \<Rightarrow> x | Inl e \<Rightarrow> None)\<rparr>"])
             (simp_all add: step_def answers_def)
      qed
    qed
  qed
next
  case Plain
  then show ?thesis by (intro plain) (simp_all add: step_def)
qed

lemma step_cleanLines:
  "cleanLines (step parse st l) = cleanLines st @ (if classify l = Plain then [l] else [])"
  by (cases rule: step_cases [of l parse st])
     (auto simp: update_call_simps answers_def split: marker.splits)

lemma foldl_cleanLines:
  "cleanLines (foldl (step parse) st ls) = cleanLines st @ filter (\<lambda>l. classify l = Plain) ls"
  by (induction ls arbitrary: st) (simp_all add: step_cleanLines)

lemma step_calls:
  "map (\<lambda>r. (call_tool r, call_input r)) (toolCalls (step parse st l))
     = map (\<lambda>r. (call_tool r, call_input r)) (toolCalls st)
       @ (case call_of parse l of Some c \<Rightarrow> [c] | None \<Rightarrow> [])"
proof (cases rule: step_cases [of l parse st])
  case (start t j v)
  then show ?thesis by (simp add: call_of_def new_call_def)
next
  case (update u i f)
  then show ?thesis by (simp add: update_call_keys call_of_def answers_def split: marker.splits)
next
  case skip
  then show ?thesis by simp
next
  case plain
  then show ?thesis by (simp add: call_of_def)
qed

lemma calls_of_Cons:
  "calls_of parse (l # ls) = (case call_of parse l of Some c \<Rightarrow> [c] | None \<Rightarrow> []) @ calls_of parse ls"
  by (simp add: calls_of_def map_filter_simps split: option.splits)

lemma calls_of_append: "calls_of parse (xs @ ys) = calls_of parse xs @ calls_of parse ys"
  by (simp add: calls_of_def map_filter_def)

lemma foldl_calls:
  "map (\<lambda>r. (call_tool r, call_input r)) (toolCalls (foldl (step parse) st ls))
     = map (\<lambda>r. (call_tool r, call_input r)) (toolCalls st) @ calls_of parse ls"
proof (induction ls arbitrary: st)
  case Nil
  then show ?case by (simp add: calls_of_def map_filter_simps)
next
  case (Cons l ls)
  show ?case by (simp add: Cons.IH step_calls calls_of_Cons)
qed

lemma foldl_length:
  "length (toolCalls (foldl (step parse) st ls)) = length (toolCalls st) + length (calls_of parse ls)"
proof -
  have "length (map (\<lambda>r. (call_tool r, call_input r)) (toolCalls (foldl (step parse) st ls)))
          = length (map (\<lambda>r. (call_tool r, call_input r)) (toolCalls st) @ calls_of parse ls)"
    by (simp only: foldl_calls)
  then show ?thesis by simp
qed

lemma step_valid: "valid st \<Longrightarrow> valid (step parse st l)"
  by (cases rule: step_cases [of l parse st])
     (auto simp: valid_def update_call_simps less_Suc_eq)

lemma foldl_valid: "valid st \<Longrightarrow> valid (foldl (step parse) st ls)"
  by (induction ls arbitrary: st) (simp_all add: step_valid)



lemma step_owned_quiet:
  assumes "owned t k st" "\<not> answers t l"
  shows "owned t k (step parse st l) \<and> toolCalls (step parse st l) ! k = toolCalls st ! k"
  using assms
  by (cases rule: step_cases [of l parse st])
     (auto simp: owned_def update_call_simps nth_append)

lemma foldl_owned_quiet:
  "owned t k st \<Longrightarrow> list_all (\<lambda>l. \<not> answers t l) ls \<Longrightarrow>
     owned t k (foldl (step parse) st ls) \<and> toolCalls (foldl (step parse) st ls) ! k = toolCalls st ! k"
proof (induction ls arbitrary: st)
  case Nil
  then show ?case by simp
next
  case (Cons l ls)
  from Cons.prems have q: "\<not> answers t l" and rest: "list_all (\<lambda>l. \<not> answers t l) ls" by simp_all
  from step_owned_quiet [OF Cons.prems(1) q, of parse] Cons.IH [of "step parse st l"] rest
  show ?case by simp
qed

lemma step_map_keep:
  "\<not> starts parse t l \<Longrightarrow> toolCallMap (step parse st l) t = toolCallMap st t"
  by (cases rule: step_cases [of l parse st]) (auto simp: starts_def update_call_simps)

lemma foldl_map_keep:
  "list_all (\<lambda>l. \<not> starts parse t l) ls \<Longrightarrow>
     toolCallMap (foldl (step parse) st ls) t = toolCallMap st t"
  by (induction ls arbitrary: st) (simp_all add: step_map_keep)

lemma step_start:
  assumes "valid st" "classify c = CallStart t j" "parse j = Some v"
  shows "owned t (length (toolCalls st)) (step parse st c)
       \<and> toolCalls (step parse st c) ! length (toolCalls st) = new_call t v
       \<and> toolCallMap (step parse st c) t = Some (length (toolCalls st))"
  using assms by (auto simp: valid_def owned_def step_def new_call_def)


lemma step_result:
  assumes "owned t k st" "toolCallMap st t = Some k" "classify r = CallResult t j"
    "parse j = Some d" "d \<noteq> JNull"
  shows "toolCalls (step parse st r) ! k = (toolCalls st ! k)\<lparr>durationMs := duration_of d, call_success := True\<rparr>
       \<and> owned t k (step parse st r) \<and> toolCallMap (step parse st r) t = Some k"
proof -
  from \<open>d \<noteq> JNull\<close> obtain x where x: "get_prop d ''durationMs'' = Inr x"
    by (cases d) simp_all
  with assms have "step parse st r
      = update_call st k (\<lambda>r. r\<lparr>durationMs := or_zero x, call_success := True\<rparr>)"
    by (simp add: step_def)
  with assms(1) x show ?thesis
    by (simp add: owned_def update_call_simps duration_of_def assms(2))
qed

lemma step_unparseable: "unparseable parse l \<Longrightarrow> step parse st l = st"
  by (auto simp: unparseable_def step_def split: marker.splits)

lemma valid_init: "valid \<lparr>toolCalls = [], toolCallMap = Map.empty, cleanLines = []\<rparr>"
  by (simp add: valid_def)

lemma parse_lines_append:
  "parse_lines parse (pre @ ls) = foldl (step parse) (parse_lines parse pre) ls"
  by (simp add: parse_lines_def)

lemma parse_lines_valid: "valid (parse_lines parse ls)"
  unfolding parse_lines_def by (rule foldl_valid) (rule valid_init)

lemma parse_lines_length: "length (toolCalls (parse_lines parse ls)) = length (calls_of parse ls)"
  by (simp add: parse_lines_def foldl_length)

lemma parse_lines_calls:
  "map (\<lambda>r. (call_tool r, call_input r)) (toolCalls (parse_lines parse ls)) = calls_of parse ls"
  by (simp add: parse_lines_def foldl_calls)

lemma parse_lines_clean:
  "cleanLines (parse_lines parse ls) = filter (\<lambda>l. classify l = Plain) ls"
  by (simp add: parse_lines_def foldl_cleanLines)

lemma after_start:
  assumes c: "classify c = CallStart t j" "parse j = Some v"
    and quiet: "list_all (\<lambda>l. \<not> answers t l) mid"
  shows "owned t (length (calls_of parse pre)) (parse_lines parse (pre @ c # mid))"
    and "toolCalls (parse_lines parse (pre @ c # mid)) ! length (calls_of parse pre) = new_call t v"
    and "list_all (\<lambda>l. \<not> starts parse t l) mid \<Longrightarrow>
           toolCallMap (parse_lines parse (pre @ c # mid)) t = Some (length (calls_of parse pre))"
proof -
  let ?k = "length (calls_of parse pre)"
  let ?st0 = "parse_lines parse pre"
  have k: "?k = length (toolCalls ?st0)" by (simp add: parse_lines_length)
  have s1: "owned t ?k (step parse ?st0 c)" "toolCalls (step parse ?st0 c) ! ?k = new_call t v"
    "toolCallMap (step parse ?st0 c) t = Some ?k"
    using step_start [where st = ?st0 and c = c and t = t and j = j and parse = parse and v = v]
      parse_lines_valid [of parse pre] c
    by (simp_all add: k)
  have s2: "owned t ?k (foldl (step parse) (step parse ?st0 c) mid)
          \<and> toolCalls (foldl (step parse) (step parse ?st0 c) mid) ! ?k
              = toolCalls (step parse ?st0 c) ! ?k"
    using s1(1) quiet by (rule foldl_owned_quiet)
  with s1(2)
  show "owned t ?k (parse_lines parse (pre @ c # mid))"
    and "toolCalls (parse_lines parse (pre @ c # mid)) ! ?k = new_call t v"
    by (simp_all add: parse_lines_append)
  show "toolCallMap (parse_lines parse (pre @ c # mid)) t = Some ?k"
    if "list_all (\<lambda>l. \<not> starts parse t l) mid"
    using foldl_map_keep [OF that, of "step parse ?st0 c"] s1(3)
    by (simp add: parse_lines_append)
qed

lemma unmatched_call:
  assumes "classify c = CallStart t j" "parse j = Some v" "list_all (\<lambda>l. \<not> answers t l) post"
  shows "length (calls_of parse pre) < length (toolCalls (parse_lines parse (pre @ c # post)))
       \<and> toolCalls (parse_lines parse (pre @ c # post)) ! length (calls_of parse pre) = new_call t v"
  using after_start(1,2) [where c = c and t = t and j = j and parse = parse and v = v
      and mid = post and pre = pre] assms
  by (simp add: owned_def)


lemma matched_call:
  assumes c: "classify c = CallStart t j" "parse j = Some v"
    and r: "classify r = CallResult t j'" "parse j' = Some d" "d \<noteq> JNull"
    and mid: "list_all (\<lambda>l. \<not> answers t l \<and> \<not> starts parse t l) mid"
    and post: "list_all (\<lambda>l. \<not> answers t l) post"
  shows "length (calls_of parse pre) < length (toolCalls (parse_lines parse (pre @ c # mid @ r # post)))
       \<and> toolCalls (parse_lines parse (pre @ c # mid @ r # post)) ! length (calls_of parse pre)
           = (new_call t v)\<lparr>durationMs := duration_of d, call_success := True\<rparr>"
proof -
  let ?k = "length (calls_of parse pre)"
  let ?st2 = "parse_lines parse (pre @ c # mid)"
  let ?st3 = "step parse ?st2 r"
  from mid have quiet: "list_all (\<lambda>l. \<not> answers t l) mid"
    and nostart: "list_all (\<lambda>l. \<not> starts parse t l) mid"
    by (simp_all add: list_all_iff)
  have s2: "owned t ?k ?st2" "toolCalls ?st2 ! ?k = new_call t v" "toolCallMap ?st2 t = Some ?k"
    using after_start [where c = c and t = t and j = j and parse = parse and v = v
        and mid = mid and pre = pre] c quiet nostart
    by simp_all
  have s3: "owned t ?k ?st3"
    "toolCalls ?st3 ! ?k = (new_call t v)\<lparr>durationMs := duration_of d, call_success := True\<rparr>"
    using step_result [where st = ?st2 and k = ?k and r = r and t = t and j = j'
        and parse = parse and d = d] s2 r
    by simp_all
  have eq: "parse_lines parse (pre @ c # mid @ r # post) = foldl (step parse) ?st3 post"
    by (simp add: parse_lines_def)
  have "owned t ?k (foldl (step parse) ?st3 post)
      \<and> toolCalls (foldl (step parse) ?st3 post) ! ?k = toolCalls ?st3 ! ?k"
    using s3(1) post by (rule foldl_owned_quiet)
  with s3(2) show ?thesis by (simp add: eq owned_def)
qed

lemma call_of_start: "call_of parse l = Some (t, v) \<Longrightarrow> starts parse t l"
  by (auto simp: call_of_def starts_def split: marker.splits)

lemma no_start_no_call:
  "list_all (\<lambda>l. \<not> starts parse t l) ls \<Longrightarrow> t \<notin> fst ` set (calls_of parse ls)"
proof (induction ls)
  case Nil
  then show ?case by (simp add: calls_of_def map_filter_simps)
next
  case (Cons l ls)
  then have l: "\<not> starts parse t l" and ih: "t \<notin> fst ` set (calls_of parse ls)" by simp_all
  show ?case
  proof (cases "call_of parse l")
    case None
    with ih show ?thesis by (simp add: calls_of_Cons)
  next
    case (Some p)
    with l call_of_start [of parse l "fst p" "snd p"] have "fst p \<noteq> t" by auto
    with ih Some show ?thesis by (simp add: calls_of_Cons)
  qed
qed

lemma filter_single:
  assumes "map g xs = as @ t # bs" "t \<notin> set as" "t \<notin> set bs"
  shows "filter (\<lambda>x. g x = t) xs = [xs ! length as]"
proof -
  from assms(1) obtain xs1 x xs2 where xs: "xs = xs1 @ x # xs2"
    and m: "map g xs1 = as" "g x = t" "map g xs2 = bs"
    by (auto simp: map_eq_append_conv map_eq_Cons_conv)
  have "\<forall>y\<in>set xs1. g y \<noteq> t" using m(1) assms(2) by auto
  then have f1: "filter (\<lambda>x. g x = t) xs1 = []" by (simp add: filter_empty_conv)
  have "\<forall>y\<in>set xs2. g y \<noteq> t" using m(3) assms(3) by auto
  then have f2: "filter (\<lambda>x. g x = t) xs2 = []" by (simp add: filter_empty_conv)
  from m have "length as = length xs1" by auto
  with f1 f2 m(2) show ?thesis by (simp add: xs)
qed

lemma only_call:
  assumes c: "classify c = CallStart t j" "parse j = Some v"
    and pre: "list_all (\<lambda>l. \<not> starts parse t l) pre"
    and post: "list_all (\<lambda>l. \<not> starts parse t l) post"
  shows "filter (\<lambda>r. call_tool r = t) (toolCalls (parse_lines parse (pre @ c # post)))
           = [toolCalls (parse_lines parse (pre @ c # post)) ! length (calls_of parse pre)]"
proof -
  let ?xs = "toolCalls (parse_lines parse (pre @ c # post))"
  have "map (\<lambda>r. (call_tool r, call_input r)) ?xs = calls_of parse pre @ (t, v) # calls_of parse post"
    using c by (simp add: parse_lines_calls calls_of_append calls_of_Cons [of parse c] call_of_def)
  then have "map fst (map (\<lambda>r. (call_tool r, call_input r)) ?xs)
               = map fst (calls_of parse pre) @ t # map fst (calls_of parse post)"
    by simp
  then have "map call_tool ?xs = map fst (calls_of parse pre) @ t # map fst (calls_of parse post)"
    by (simp add: comp_def)
  from filter_single [OF this] no_start_no_call [OF pre] no_start_no_call [OF post]
  show ?thesis by simp
qed

text \<open>
  C7 (as amended). For every output, read line by line: the clean output is the lines
  that match no marker pattern, joined by line feeds, with leading and trailing white
  space trimmed; the trace has one record per call-start marker whose payload parses, in
  order, with the marker's tool and parsed input; a marker line whose payload does not
  parse changes nothing, is not a clean line and adds no record, and the lines after it
  are processed as usual. When a tool has a single call-start marker that parses,
  followed later by a result marker for it whose payload parses to a value other than
  \<^verbatim>\<open>null\<close>, with no other result or error marker for the tool after the call-start, the
  trace has exactly one record for the tool, with \<open>success = true\<close> and the marker's
  \<^verbatim>\<open>durationMs\<close> (0 when the payload has none). A call-start marker that no result or
  error marker for its tool follows yields a record with \<open>success = false\<close>, duration 0 and
  output \<^verbatim>\<open>null\<close>.
\<close>

theorem parseToolCallsFromOutput_trace:
  "fst (parseToolCallsFromOutput parse out)
     = trim (join [CHR 0x0A] (filter (\<lambda>l. classify l = Plain) (split_lines out)))
   \<and> map (\<lambda>x. (call_tool x, call_input x)) (snd (parseToolCallsFromOutput parse out))
     = calls_of parse (split_lines out)
   \<and> (unparseable parse l \<longrightarrow>
         step parse st l = st \<and> classify l \<noteq> Plain \<and> call_of parse l = None)
   \<and> (split_lines out = pre @ c # mid @ r # post
        \<and> classify c = CallStart t j \<and> parse j = Some v
        \<and> classify r = CallResult t j' \<and> parse j' = Some d \<and> d \<noteq> JNull
        \<and> list_all (\<lambda>l. \<not> starts parse t l) pre
        \<and> list_all (\<lambda>l. \<not> answers t l \<and> \<not> starts parse t l) (mid @ post) \<longrightarrow>
         filter (\<lambda>x. call_tool x = t) (snd (parseToolCallsFromOutput parse out))
           = [\<lparr>call_tool = t, call_input = v, call_output = JNull, durationMs = duration_of d,
               call_success = True, call_error = None\<rparr>])
   \<and> (split_lines out = pre @ c # post
        \<and> classify c = CallStart t j \<and> parse j = Some v
        \<and> list_all (\<lambda>l. \<not> answers t l) post \<longrightarrow>
         length (calls_of parse pre) < length (snd (parseToolCallsFromOutput parse out))
         \<and> snd (parseToolCallsFromOutput parse out) ! length (calls_of parse pre)
             = \<lparr>call_tool = t, call_input = v, call_output = JNull, durationMs = JNum 0,
                call_success = False, call_error = None\<rparr>)"
proof (intro conjI impI)
  show "fst (parseToolCallsFromOutput parse out)
     = trim (join [CHR 0x0A] (filter (\<lambda>l. classify l = Plain) (split_lines out)))"
    by (simp add: parseToolCallsFromOutput_def Let_def parse_lines_clean)
  show "map (\<lambda>x. (call_tool x, call_input x)) (snd (parseToolCallsFromOutput parse out))
     = calls_of parse (split_lines out)"
    by (simp add: parseToolCallsFromOutput_def Let_def parse_lines_calls)
next
  assume u: "unparseable parse l"
  then show "step parse st l = st" by (rule step_unparseable)
  from u show "classify l \<noteq> Plain" by (auto simp: unparseable_def)
  from u show "call_of parse l = None"
    by (auto simp: unparseable_def call_of_def split: marker.splits)
next
  assume a: "split_lines out = pre @ c # mid @ r # post
        \<and> classify c = CallStart t j \<and> parse j = Some v
        \<and> classify r = CallResult t j' \<and> parse j' = Some d \<and> d \<noteq> JNull
        \<and> list_all (\<lambda>l. \<not> starts parse t l) pre
        \<and> list_all (\<lambda>l. \<not> answers t l \<and> \<not> starts parse t l) (mid @ post)"
  then have mid: "list_all (\<lambda>l. \<not> answers t l \<and> \<not> starts parse t l) mid"
    and post: "list_all (\<lambda>l. \<not> answers t l) post"
    and nost: "list_all (\<lambda>l. \<not> starts parse t l) (mid @ r # post)"
    by (auto simp: list_all_iff starts_def)
  have m: "toolCalls (parse_lines parse (pre @ c # mid @ r # post)) ! length (calls_of parse pre)
           = (new_call t v)\<lparr>durationMs := duration_of d, call_success := True\<rparr>"
    using matched_call [where c = c and t = t and j = j and parse = parse and v = v and r = r
        and j' = j' and d = d and mid = mid and post = post and pre = pre] a mid post
    by simp
  have o: "filter (\<lambda>x. call_tool x = t) (toolCalls (parse_lines parse (pre @ c # mid @ r # post)))
           = [toolCalls (parse_lines parse (pre @ c # mid @ r # post)) ! length (calls_of parse pre)]"
    using only_call [where c = c and t = t and j = j and parse = parse and v = v and pre = pre
        and post = "mid @ r # post"] a nost
    by simp
  from a m o
  show "filter (\<lambda>x. call_tool x = t) (snd (parseToolCallsFromOutput parse out))
           = [\<lparr>call_tool = t, call_input = v, call_output = JNull, durationMs = duration_of d,
               call_success = True, call_error = None\<rparr>]"
    by (simp add: parseToolCallsFromOutput_def Let_def new_call_def)
next
  assume a: "split_lines out = pre @ c # post
        \<and> classify c = CallStart t j \<and> parse j = Some v
        \<and> list_all (\<lambda>l. \<not> answers t l) post"
  have u: "length (calls_of parse pre) < length (toolCalls (parse_lines parse (pre @ c # post)))
       \<and> toolCalls (parse_lines parse (pre @ c # post)) ! length (calls_of parse pre) = new_call t v"
    using unmatched_call [where c = c and t = t and j = j and parse = parse and v = v
        and post = post and pre = pre] a
    by simp
  with a show "length (calls_of parse pre) < length (snd (parseToolCallsFromOutput parse out))"
    by (simp add: parseToolCallsFromOutput_def Let_def)
  from u a show "snd (parseToolCallsFromOutput parse out) ! length (calls_of parse pre)
             = \<lparr>call_tool = t, call_input = v, call_output = JNull, durationMs = JNum 0,
                call_success = False, call_error = None\<rparr>"
    by (simp add: parseToolCallsFromOutput_def Let_def new_call_def)
qed

theorem parseToolCallsFromOutput_trace_witness:
  "parseToolCallsFromOutput test_parse getData_output
     = (''Result: test data'',
        [\<lparr>call_tool = ''getData'', call_input = JObj [(''query'', JStr ''test'')],
          call_output = JNull, durationMs = JNum 50, call_success = True, call_error = None\<rparr>])
   \<and> parseToolCallsFromOutput test_parse badTool_output = (''Regular output'', [])
   \<and> snd (parseToolCallsFromOutput test_parse ''[TOOL_CALL:failingTool]{}'')
     = [\<lparr>call_tool = ''failingTool'', call_input = JObj [], call_output = JNull,
         durationMs = JNum 0, call_success = False, call_error = None\<rparr>]"
proof -
  have lines: "split_lines getData_output
                 = [] @ ''[TOOL_CALL:getData]{\"query\":\"test\"}''
                     # [] @ ''[TOOL_RESULT:getData]{\"durationMs\":50}'' # [''Result: test data'']"
    by code_simp
  have c: "classify ''[TOOL_CALL:getData]{\"query\":\"test\"}''
             = CallStart ''getData'' ''{\"query\":\"test\"}''"
    by code_simp
  have r: "classify ''[TOOL_RESULT:getData]{\"durationMs\":50}''
             = CallResult ''getData'' ''{\"durationMs\":50}''"
    by code_simp
  have p: "test_parse ''{\"query\":\"test\"}'' = Some (JObj [(''query'', JStr ''test'')])"
    "test_parse ''{\"durationMs\":50}'' = Some (JObj [(''durationMs'', JNum 50)])"
    by code_simp+
  have q: "list_all (\<lambda>l. \<not> starts test_parse ''getData'' l) []"
    "list_all (\<lambda>l. \<not> answers ''getData'' l \<and> \<not> starts test_parse ''getData'' l)
       ([] @ [''Result: test data''])"
    by code_simp+
  have d: "duration_of (JObj [(''durationMs'', JNum 50)]) = JNum 50"
    by (simp add: duration_of_def or_zero_def)
  have one: "filter (\<lambda>x. call_tool x = ''getData'')
               (snd (parseToolCallsFromOutput test_parse getData_output))
             = [\<lparr>call_tool = ''getData'', call_input = JObj [(''query'', JStr ''test'')],
                 call_output = JNull, durationMs = JNum 50, call_success = True,
                 call_error = None\<rparr>]"
    using parseToolCallsFromOutput_trace
      [where parse = test_parse and out = getData_output and pre = "[]"
         and c = "''[TOOL_CALL:getData]{\"query\":\"test\"}''" and mid = "[]"
         and r = "''[TOOL_RESULT:getData]{\"durationMs\":50}''" and post = "[''Result: test data'']"
         and t = "''getData''" and j = "''{\"query\":\"test\"}''"
         and v = "JObj [(''query'', JStr ''test'')]" and j' = "''{\"durationMs\":50}''"
         and d = "JObj [(''durationMs'', JNum 50)]"]
      lines c r p q d
    by simp
  have bad: "unparseable test_parse ''[TOOL_CALL:badTool]not-json''"
    by code_simp
  have skipped: "call_of test_parse ''[TOOL_CALL:badTool]not-json'' = None"
    using parseToolCallsFromOutput_trace
      [where parse = test_parse and l = "''[TOOL_CALL:badTool]not-json''"] bad
    by simp
  have lines3: "split_lines ''[TOOL_CALL:failingTool]{}'' = [] @ ''[TOOL_CALL:failingTool]{}'' # []"
    "classify ''[TOOL_CALL:failingTool]{}'' = CallStart ''failingTool'' ''{}''"
    "test_parse ''{}'' = Some (JObj [])"
    by code_simp+
  have lone: "snd (parseToolCallsFromOutput test_parse ''[TOOL_CALL:failingTool]{}'') ! 0
                = \<lparr>call_tool = ''failingTool'', call_input = JObj [], call_output = JNull,
                   durationMs = JNum 0, call_success = False, call_error = None\<rparr>"
    using parseToolCallsFromOutput_trace
      [where parse = test_parse and out = "''[TOOL_CALL:failingTool]{}''" and pre = "[]"
         and c = "''[TOOL_CALL:failingTool]{}''" and post = "[]" and t = "''failingTool''"
         and j = "''{}''" and v = "JObj []"]
      lines3
    by (simp add: calls_of_def map_filter_simps)
  have e1: "parseToolCallsFromOutput test_parse getData_output
     = (''Result: test data'',
        [\<lparr>call_tool = ''getData'', call_input = JObj [(''query'', JStr ''test'')],
          call_output = JNull, durationMs = JNum 50, call_success = True, call_error = None\<rparr>])"
    by code_simp
  have e2: "parseToolCallsFromOutput test_parse badTool_output = (''Regular output'', [])"
    by code_simp
  have e3: "snd (parseToolCallsFromOutput test_parse ''[TOOL_CALL:failingTool]{}'')
     = [\<lparr>call_tool = ''failingTool'', call_input = JObj [], call_output = JNull,
         durationMs = JNum 0, call_success = False, call_error = None\<rparr>]"
    by code_simp
  from one skipped lone e1 e2 e3 show ?thesis by simp
qed

text \<open>
  C7 as stated fails in two places. After the malformed marker line, a plain line that
  begins with spaces comes back without them, so the clean output is not the non-marker
  line. And a call-start marker that parses, followed later by a result marker for its
  tool, does not always yield exactly one record with \<open>success = true\<close>: when the tool is
  started twice before the result, there are two records and the first keeps
  \<open>success = false\<close>.
\<close>

theorem clean_output_trimmed_counterexample:
  "split_lines indented_output = [''[TOOL_CALL:x]not-json'', ''  indented'']
   \<and> classify ''  indented'' = Plain
   \<and> parseToolCallsFromOutput test_parse indented_output = (''indented'', [])
   \<and> fst (parseToolCallsFromOutput test_parse indented_output) \<noteq> ''  indented''
   \<and> map (\<lambda>x. (call_tool x, call_success x))
         (snd (parseToolCallsFromOutput test_parse concurrent_output))
       = [(''getData'', False), (''getData'', True)]"
  by code_simp



end
